theory Spec2Isabelle
  imports Main "HOL-Library.Word"
begin

section \<open>Per-user local-midnight scheduler: data model\<close>

text \<open>
  The development follows \<^verbatim>\<open>sql/0008_per_user_local_midnight_scheduler.sql\<close>:
  the table \<^verbatim>\<open>user_midnight_runs\<close> and the PL/pgSQL function
  \<^verbatim>\<open>run_sessionize_for_users_crossing_midnight\<close>.

  \<^item> \<^verbatim>\<open>UUID\<close> is a 128-bit value; only equality is ever used on it.
  \<^item> \<^verbatim>\<open>TIMESTAMPTZ\<close> is PostgreSQL's count of microseconds since
    2000-01-01 00:00:00 UTC. It is an \<open>int\<close> here: \<^verbatim>\<open>NOW()\<close> lies near
    \<open>8 * 10^14\<close> and a 32-bit \<^verbatim>\<open>window_minutes\<close> is at most
    \<open>1.3 * 10^17\<close> microseconds, so no operation of the function comes near the
    64-bit range of the type.
  \<^item> \<^verbatim>\<open>DATE\<close> is PostgreSQL's count of days since 2000-01-01; two dates are
    different civil dates exactly when the counts differ.
  \<^item> A time zone is the rule giving the UTC offset, in seconds east of Greenwich, in
    effect at an instant. The IANA database that resolves a zone name is not part of
    the repository and is a parameter \<open>tzdb\<close>; a name it does not know makes
    \<^verbatim>\<open>AT TIME ZONE\<close> raise.
\<close>

type_synonym uuid = "128 word"
type_synonym timestamptz = int
type_synonym date = int
type_synonym zone = "timestamptz \<Rightarrow> int"
type_synonym tzdata = "string \<Rightarrow> zone option"

datatype error =
  Time_Zone_Not_Recognized string
| Raised string

text \<open>A row of \<^verbatim>\<open>public.profiles\<close>, with the two columns the function reads.\<close>

record profile =
  profile_id :: uuid
  timezone :: "string option"

text \<open>
  A row of \<^verbatim>\<open>public.user_midnight_runs\<close>. The table is the list of its rows in
  insertion order, so that the primary key \<^verbatim>\<open>(user_id, local_date)\<close> is a property
  to be established and not one built into the type.
\<close>

record run_row =
  user_id :: uuid
  local_date :: date
  ran_at :: timestamptz

definition pk :: "run_row \<Rightarrow> uuid \<times> date" where
  "pk r = (user_id r, local_date r)"

text \<open>
  The downstream processor \<^verbatim>\<open>public.sessionize_recent_visits(user_id,
  gap_threshold_minutes, lookback_hours)\<close> is defined outside this repository. It is
  a parameter that either raises or returns its integer; it does not write to
  \<^verbatim>\<open>user_midnight_runs\<close>.
\<close>

type_synonym sessionizer = "uuid \<Rightarrow> int \<Rightarrow> int \<Rightarrow> error + int"

section \<open>Local dates and the crossing test\<close>

text \<open>\<^verbatim>\<open>MAKE_INTERVAL(mins => m)\<close>, in microseconds.\<close>

definition make_interval_mins :: "int \<Rightarrow> int" where
  "make_interval_mins m = m * 60000000"

text \<open>
  \<^verbatim>\<open>(t AT TIME ZONE z)::DATE\<close> for a resolved zone: shift the instant by the
  offset in effect at that very instant and take the day it falls in (the cast
  rounds towards minus infinity, as \<open>div\<close> on \<open>int\<close> does).
\<close>

definition at_time_zone_date :: "zone \<Rightarrow> timestamptz \<Rightarrow> date" where
  "at_time_zone_date z t = (t + z t * 1000000) div 86400000000"

definition local_date_of :: "tzdata \<Rightarrow> string \<Rightarrow> timestamptz \<Rightarrow> error + date" where
  "local_date_of tzdb tz t =
     (case tzdb tz of
        None \<Rightarrow> Inl (Time_Zone_Not_Recognized tz)
      | Some z \<Rightarrow> Inr (at_time_zone_date z t))"

text \<open>
  The second conjunct of the \<^verbatim>\<open>WHERE\<close> clause (lines 72-73):
  \<^verbatim>\<open>((v_now_utc AT TIME ZONE tz)::DATE) <> ((v_prev AT TIME ZONE tz)::DATE)\<close>.
\<close>

definition date_changed :: "tzdata \<Rightarrow> string \<Rightarrow> timestamptz \<Rightarrow> timestamptz \<Rightarrow> error + bool" where
  "date_changed tzdb tz v_now_utc v_prev =
     (case local_date_of tzdb tz v_now_utc of
        Inl e \<Rightarrow> Inl e
      | Inr d_now \<Rightarrow>
          (case local_date_of tzdb tz v_prev of
             Inl e \<Rightarrow> Inl e
           | Inr d_prev \<Rightarrow> Inr (d_now \<noteq> d_prev)))"

text \<open>
  The \<^verbatim>\<open>WHERE\<close> clause on one row of \<^verbatim>\<open>profiles\<close>: a row with a
  \<^verbatim>\<open>NULL\<close> time zone is filtered out, any other row is kept when its date
  changed. The result is the selected \<^verbatim>\<open>(user_id, timezone)\<close>, if any.
\<close>

definition where_row :: "tzdata \<Rightarrow> timestamptz \<Rightarrow> timestamptz \<Rightarrow> profile \<Rightarrow> error + (uuid \<times> string) option" where
  "where_row tzdb v_now_utc v_prev p =
     (case timezone p of
        None \<Rightarrow> Inr None
      | Some tz \<Rightarrow>
          (case date_changed tzdb tz v_now_utc v_prev of
             Inl e \<Rightarrow> Inl e
           | Inr b \<Rightarrow> Inr (if b then Some (profile_id p, tz) else None)))"

text \<open>
  The \<^verbatim>\<open>SELECT\<close> of lines 69-73 evaluated to its end over the rows of
  \<^verbatim>\<open>profiles\<close> in scan order: the rows it returns, or the error of the first row
  on which the \<^verbatim>\<open>WHERE\<close> clause raises.
\<close>

fun select_candidates :: "tzdata \<Rightarrow> timestamptz \<Rightarrow> timestamptz \<Rightarrow> profile list \<Rightarrow> error + (uuid \<times> string) list" where
  "select_candidates tzdb v_now_utc v_prev [] = Inr []"
| "select_candidates tzdb v_now_utc v_prev (p # ps) =
     (case where_row tzdb v_now_utc v_prev p of
        Inl e \<Rightarrow> Inl e
      | Inr c \<Rightarrow>
          (case select_candidates tzdb v_now_utc v_prev ps of
             Inl e \<Rightarrow> Inl e
           | Inr cs \<Rightarrow> Inr (case c of None \<Rightarrow> cs | Some r \<Rightarrow> r # cs)))"

text \<open>
  The rows of \<^verbatim>\<open>profiles\<close> on which the \<^verbatim>\<open>WHERE\<close> clause is true: the
  candidates whose date changed, whatever happens on the other rows.
\<close>

fun rows_passing_where :: "tzdata \<Rightarrow> timestamptz \<Rightarrow> timestamptz \<Rightarrow> profile list \<Rightarrow> (uuid \<times> string) list" where
  "rows_passing_where tzdb v_now_utc v_prev [] = []"
| "rows_passing_where tzdb v_now_utc v_prev (p # ps) =
     (case where_row tzdb v_now_utc v_prev p of
        Inr (Some r) \<Rightarrow> r # rows_passing_where tzdb v_now_utc v_prev ps
      | _ \<Rightarrow> rows_passing_where tzdb v_now_utc v_prev ps)"

text \<open>
  The loop \<^verbatim>\<open>FOR r IN SELECT ... LOOP\<close> does not evaluate the query to its end
  first: PL/pgSQL opens a cursor on it and fetches the rows in batches. One fetch
  of at most \<open>k\<close> rows scans \<^verbatim>\<open>profiles\<close> from where the cursor stands, stops as
  soon as \<open>k\<close> rows have passed the \<^verbatim>\<open>WHERE\<close> clause or the table is exhausted,
  and raises when the clause raises on a row it scans. It returns the rows
  fetched and the rows of \<^verbatim>\<open>profiles\<close> not yet scanned.
\<close>

fun fetch :: "tzdata \<Rightarrow> timestamptz \<Rightarrow> timestamptz \<Rightarrow> nat \<Rightarrow> profile list \<Rightarrow> error + ((uuid \<times> string) list \<times> profile list)" where
  "fetch tzdb v_now_utc v_prev k [] = Inr ([], [])"
| "fetch tzdb v_now_utc v_prev k (p # ps) =
     (if k = 0 then Inr ([], p # ps)
      else
        (case where_row tzdb v_now_utc v_prev p of
           Inl e \<Rightarrow> Inl e
         | Inr None \<Rightarrow> fetch tzdb v_now_utc v_prev k ps
         | Inr (Some r) \<Rightarrow>
             (case fetch tzdb v_now_utc v_prev (k - 1) ps of
                Inl e \<Rightarrow> Inl e
              | Inr (rs, rest) \<Rightarrow> Inr (r # rs, rest))))"

section \<open>The dedupe table\<close>

text \<open>
  \<^verbatim>\<open>INSERT ... ON CONFLICT (user_id, local_date) DO NOTHING\<close> followed by
  \<^verbatim>\<open>GET DIAGNOSTICS inserted = ROW_COUNT\<close> (lines 79-83): the primary-key index
  decides whether the row goes in, and the row count says which it was.
\<close>

definition insert_on_conflict_do_nothing :: "run_row \<Rightarrow> run_row list \<Rightarrow> int \<times> run_row list" where
  "insert_on_conflict_do_nothing row T =
     (if pk row \<in> set (map pk T) then (0, T) else (1, T @ [row]))"

text \<open>
  The claim of a pair, as the loop body performs it: the insert above with
  \<^verbatim>\<open>ran_at\<close> defaulting to \<^verbatim>\<open>NOW()\<close>, and the test \<^verbatim>\<open>inserted > 0\<close>.
\<close>

definition claim :: "uuid \<Rightarrow> date \<Rightarrow> timestamptz \<Rightarrow> run_row list \<Rightarrow> bool \<times> run_row list" where
  "claim u d now T =
     (case insert_on_conflict_do_nothing \<lparr>user_id = u, local_date = d, ran_at = now\<rparr> T of
        (inserted, T') \<Rightarrow> (inserted > 0, T'))"

text \<open>
  The retention sweep written in \<^verbatim>\<open>sql/0009_verify_local_midnight_scheduler.sql\<close>
  (lines 119-120): \<^verbatim>\<open>DELETE FROM user_midnight_runs WHERE ran_at < h\<close>, with
  the number of rows deleted. The horizon \<open>h\<close> stands for whatever instant
  \<^verbatim>\<open>NOW() - INTERVAL '90 days'\<close> evaluates to.
\<close>

definition purge_older_than :: "timestamptz \<Rightarrow> run_row list \<Rightarrow> nat \<times> run_row list" where
  "purge_older_than horizon T =
     (length (filter (\<lambda>r. ran_at r < horizon) T), filter (\<lambda>r. \<not> ran_at r < horizon) T)"

section \<open>The scheduler function\<close>

text \<open>
  The state the loop works on: the table, the counter \<^verbatim>\<open>runs\<close>, and two
  logs that the code does not keep but the properties speak of: the downstream
  calls made, in order, and the claims attempted, each with its outcome.
\<close>

record loop_state =
  user_midnight_runs :: "run_row list"
  runs :: int
  performed :: "(uuid \<times> int \<times> int) list"
  claimed :: "(uuid \<times> date \<times> bool) list"

text \<open>
  One iteration (lines 75-93). An exception leaves the iteration at once; the
  function has no \<^verbatim>\<open>EXCEPTION\<close> block, so it leaves the loop and the function
  too.
\<close>

definition loop_body :: "sessionizer \<Rightarrow> tzdata \<Rightarrow> timestamptz \<Rightarrow> int \<Rightarrow> int \<Rightarrow> uuid \<times> string \<Rightarrow> loop_state \<Rightarrow> error option \<times> loop_state" where
  "loop_body sessionize tzdb v_now_utc gap_threshold_minutes lookback_hours r s =
     (case local_date_of tzdb (snd r) v_now_utc of
        Inl e \<Rightarrow> (Some e, s)
      | Inr new_local_date \<Rightarrow>
          (case claim (fst r) new_local_date v_now_utc (user_midnight_runs s) of
             (won, T') \<Rightarrow>
               let s1 = s\<lparr>user_midnight_runs := T',
                          claimed := claimed s @ [(fst r, new_local_date, won)]\<rparr>
               in if won then
                    let s2 = s1\<lparr>performed := performed s1 @ [(fst r, gap_threshold_minutes, lookback_hours)]\<rparr>
                    in (case sessionize (fst r) gap_threshold_minutes lookback_hours of
                          Inl e \<Rightarrow> (Some e, s2)
                        | Inr n \<Rightarrow> (None, s2\<lparr>runs := runs s2 + 1\<rparr>))
                  else (None, s1)))"

text \<open>The body run on the rows of one batch, in order, until one raises.\<close>

fun for_loop :: "sessionizer \<Rightarrow> tzdata \<Rightarrow> timestamptz \<Rightarrow> int \<Rightarrow> int \<Rightarrow> (uuid \<times> string) list \<Rightarrow> loop_state \<Rightarrow> error option \<times> loop_state" where
  "for_loop sessionize tzdb v_now_utc g l [] s = (None, s)"
| "for_loop sessionize tzdb v_now_utc g l (r # rs) s =
     (case loop_body sessionize tzdb v_now_utc g l r s of
        (Some e, s') \<Rightarrow> (Some e, s')
      | (None, s') \<Rightarrow> for_loop sessionize tzdb v_now_utc g l rs s')"

text \<open>
  The loop statement as PL/pgSQL executes it: fetch a batch (10 rows the first
  time, 50 afterwards), stop when a fetch returns no row, otherwise run the body
  on each row of the batch in turn and fetch again. The rows after the ones
  fetched so far are not looked at until the next fetch, so an error on such a row
  is raised only if the loop gets that far, and an error in the body is raised
  without those rows ever being scanned. The result is the error raised, if any,
  the rows the cursor returned, and the state.
\<close>

function exec_for_query :: "sessionizer \<Rightarrow> tzdata \<Rightarrow> timestamptz \<Rightarrow> timestamptz \<Rightarrow> int \<Rightarrow> int \<Rightarrow> nat \<Rightarrow> profile list \<Rightarrow> loop_state \<Rightarrow> error option \<times> (uuid \<times> string) list \<times> loop_state" where
  "exec_for_query sessionize tzdb v_now_utc v_prev g l k ps s =
     (case fetch tzdb v_now_utc v_prev k ps of
        Inl e \<Rightarrow> (Some e, [], s)
      | Inr (rs, rest) \<Rightarrow>
          if rs = [] then (None, [], s)
          else
            (case for_loop sessionize tzdb v_now_utc g l rs s of
               (Some e, s') \<Rightarrow> (Some e, rs, s')
             | (None, s') \<Rightarrow>
                 (case exec_for_query sessionize tzdb v_now_utc v_prev g l 50 rest s' of
                    (e, later, s'') \<Rightarrow> (e, rs @ later, s''))))"
  by pat_completeness auto
termination
proof (relation "measure (\<lambda>(sessionize, tzdb, v_now_utc, v_prev, g, l, k, ps, s). length ps)")
  show "wf (measure (\<lambda>(sessionize :: sessionizer, tzdb :: tzdata, v_now_utc :: timestamptz,
      v_prev :: timestamptz, g :: int, l :: int, k :: nat, ps :: profile list, s :: loop_state).
      length ps))"
    by simp
next
  fix sessionize :: sessionizer and tzdb :: tzdata and v_now_utc v_prev :: timestamptz
    and g l :: int and k :: nat and ps rest :: "profile list" and s s' :: loop_state
    and rs :: "(uuid \<times> string) list" and x2 x and y :: "error option"
  assume f: "fetch tzdb v_now_utc v_prev k ps = Inr x2" and x2: "(rs, rest) = x2" and rs: "rs \<noteq> []"
  have shrink: "length rest' + length rs' \<le> length ps'"
    if "fetch tzdb v_now_utc v_prev k' ps' = Inr (rs', rest')"
    for k' ps' and rs' :: "(uuid \<times> string) list" and rest'
    using that
  proof (induction ps' arbitrary: k' rs' rest')
    case Nil
    then show ?case by simp
  next
    case (Cons p ps')
    show ?case
    proof (cases "k' = 0")
      case True
      with Cons.prems show ?thesis by simp
    next
      case False
      show ?thesis
      proof (cases "where_row tzdb v_now_utc v_prev p")
        case (Inl e)
        with False Cons.prems show ?thesis by simp
      next
        case (Inr c)
        show ?thesis
        proof (cases c)
          case None
          with Inr False Cons.prems have "fetch tzdb v_now_utc v_prev k' ps' = Inr (rs', rest')"
            by simp
          from Cons.IH [OF this] show ?thesis by simp
        next
          case (Some r)
          with Inr False Cons.prems obtain rs'' where
            "fetch tzdb v_now_utc v_prev (k' - 1) ps' = Inr (rs'', rest')" "rs' = r # rs''"
            by (auto split: sum.splits)
          with Cons.IH [of "k' - 1" rs'' rest'] show ?thesis by simp
        qed
      qed
    qed
  qed
  from f x2 have "fetch tzdb v_now_utc v_prev k ps = Inr (rs, rest)" by simp
  from shrink [OF this] rs have "length rest < length ps" by (cases rs) simp_all
  then show "((sessionize, tzdb, v_now_utc, v_prev, g, l, 50, rest, s'),
              (sessionize, tzdb, v_now_utc, v_prev, g, l, k, ps, s))
             \<in> measure (\<lambda>(sessionize, tzdb, v_now_utc, v_prev, g, l, k, ps, s). length ps)"
    by simp
qed

text \<open>
  What one call of the function leaves behind: the integer it returned or the
  error it raised, the table once the calling statement has ended, the two logs,
  and the rows the cursor returned.
\<close>

record tick_result =
  returned :: "error + int"
  table_after :: "run_row list"
  calls :: "(uuid \<times> int \<times> int) list"
  claim_log :: "(uuid \<times> date \<times> bool) list"
  selected :: "(uuid \<times> string) list"

text \<open>
  \<^verbatim>\<open>run_sessionize_for_users_crossing_midnight(gap_threshold_minutes,
  lookback_hours, window_minutes)\<close>, called at \<^verbatim>\<open>NOW() = v_now_utc\<close> on the
  tables \<open>profiles\<close> and \<open>T\<close>. The three arguments are integers (a
  \<^verbatim>\<open>NULL\<close> argument is not modelled). When the function raises, PostgreSQL
  aborts the calling statement and undoes every row it wrote, so the table is \<open>T\<close>
  again; the logs still tell what had been attempted before the error.
\<close>

definition run_sessionize_for_users_crossing_midnight ::
  "sessionizer \<Rightarrow> tzdata \<Rightarrow> timestamptz \<Rightarrow> profile list \<Rightarrow> run_row list \<Rightarrow> int \<Rightarrow> int \<Rightarrow> int \<Rightarrow> tick_result" where
  "run_sessionize_for_users_crossing_midnight sessionize tzdb v_now_utc profiles T
       gap_threshold_minutes lookback_hours window_minutes =
     (let v_prev = v_now_utc - make_interval_mins window_minutes in
      case exec_for_query sessionize tzdb v_now_utc v_prev gap_threshold_minutes lookback_hours
             10 profiles \<lparr>user_midnight_runs = T, runs = 0, performed = [], claimed = []\<rparr> of
        (Some e, rs, s) \<Rightarrow>
          \<lparr>returned = Inl e, table_after = T, calls = performed s, claim_log = claimed s,
           selected = rs\<rparr>
      | (None, rs, s) \<Rightarrow>
          \<lparr>returned = Inr (runs s), table_after = user_midnight_runs s,
           calls = performed s, claim_log = claimed s, selected = rs\<rparr>)"

section \<open>Reachable tables, attempts and scenarios\<close>

text \<open>
  The tables that can arise: the table as created, and whatever a claim, a call of
  the scheduler function or a retention sweep makes of a table that can arise.
\<close>

inductive reachable :: "run_row list \<Rightarrow> bool" where
  created: "reachable []"
| claim_step: "reachable T \<Longrightarrow> reachable (snd (claim u d now T))"
| tick_step: "reachable T \<Longrightarrow>
    reachable (table_after (run_sessionize_for_users_crossing_midnight
                  sessionize tzdb now profiles T g l w))"
| purge_step: "reachable T \<Longrightarrow> reachable (snd (purge_older_than h T))"

text \<open>The pair an entry of the claim log is about, and whether that claim inserted.\<close>

definition attempt_key :: "uuid \<times> date \<times> bool \<Rightarrow> uuid \<times> date" where
  "attempt_key a = (fst a, fst (snd a))"

definition attempt_won :: "uuid \<times> date \<times> bool \<Rightarrow> bool" where
  "attempt_won a = snd (snd a)"

text \<open>
  The pairs \<open>(user_id, local date at now)\<close> of a list of selected rows whose zone
  names are known.
\<close>

fun candidate_pairs :: "tzdata \<Rightarrow> timestamptz \<Rightarrow> (uuid \<times> string) list \<Rightarrow> (uuid \<times> date) list" where
  "candidate_pairs tzdb v_now_utc [] = []"
| "candidate_pairs tzdb v_now_utc (r # rs) =
     (case tzdb (snd r) of
        None \<Rightarrow> candidate_pairs tzdb v_now_utc rs
      | Some z \<Rightarrow> (fst r, at_time_zone_date z v_now_utc) # candidate_pairs tzdb v_now_utc rs)"

text \<open>
  Vocabulary for concrete scenarios: the instant \<open>h:m\<close> UTC of day \<open>day\<close>, a zone
  fixed at UTC-5, a zone that moves from UTC+14 to UTC-10 at 12:00 UTC of day 0,
  a zone database knowing the two, a downstream processor that always returns,
  one that raises for entity 1 only, and a \<^verbatim>\<open>profiles\<close> table of ten rows in
  the UTC-5 zone followed by a row whose zone name the database does not know.
\<close>

definition utc_instant :: "int \<Rightarrow> int \<Rightarrow> int \<Rightarrow> timestamptz" where
  "utc_instant day h m = day * 86400000000 + (h * 60 + m) * 60000000"

definition utc_minus_5 :: zone where
  "utc_minus_5 t = - 18000"

definition date_line_zone :: zone where
  "date_line_zone t = (if t < utc_instant 0 12 0 then 50400 else - 36000)"

definition zones :: tzdata where
  "zones name =
     (if name = ''America/Bogota'' then Some utc_minus_5
      else if name = ''Date/Line'' then Some date_line_zone
      else None)"

definition sessionize_ok :: sessionizer where
  "sessionize_ok u g l = Inr 1"

definition sessionize_fails_for_1 :: sessionizer where
  "sessionize_fails_for_1 u g l = (if u = 1 then Inl (Raised ''sessionize failed'') else Inr 1)"

definition ten_then_unknown :: "profile list" where
  "ten_then_unknown =
     [\<lparr>profile_id = 1, timezone = Some ''America/Bogota''\<rparr>, \<lparr>profile_id = 2, timezone = Some ''America/Bogota''\<rparr>,
      \<lparr>profile_id = 3, timezone = Some ''America/Bogota''\<rparr>, \<lparr>profile_id = 4, timezone = Some ''America/Bogota''\<rparr>,
      \<lparr>profile_id = 5, timezone = Some ''America/Bogota''\<rparr>, \<lparr>profile_id = 6, timezone = Some ''America/Bogota''\<rparr>,
      \<lparr>profile_id = 7, timezone = Some ''America/Bogota''\<rparr>, \<lparr>profile_id = 8, timezone = Some ''America/Bogota''\<rparr>,
      \<lparr>profile_id = 9, timezone = Some ''America/Bogota''\<rparr>, \<lparr>profile_id = 10, timezone = Some ''America/Bogota''\<rparr>,
      \<lparr>profile_id = 11, timezone = Some ''Nowhere''\<rparr>]"

declare exec_for_query.simps [simp del]

section \<open>The claim\<close>

text \<open>
  C3. For every pair and every table, the claim returns true exactly when the pair
  was absent before the call, and then the table is the old one with the new row
  added; when the pair was present it returns false and leaves the table as it
  was. Claiming an absent pair twice in a row gives true, then false.
\<close>

theorem claim_true_iff_absent:
  "fst (claim u d now T) = ((u, d) \<notin> set (map pk T))
   \<and> ((u, d) \<notin> set (map pk T) \<longrightarrow>
        snd (claim u d now T) = T @ [\<lparr>user_id = u, local_date = d, ran_at = now\<rparr>])
   \<and> ((u, d) \<in> set (map pk T) \<longrightarrow> claim u d now T = (False, T))
   \<and> ((u, d) \<notin> set (map pk T) \<longrightarrow>
        fst (claim u d now T) \<and> \<not> fst (claim u d now' (snd (claim u d now T))))"
  by (auto simp: claim_def insert_on_conflict_do_nothing_def pk_def)

theorem claim_true_iff_absent_witness:
  "(1, 0) \<notin> set (map pk [])
   \<and> claim 1 0 5 [] = (True, [\<lparr>user_id = 1, local_date = 0, ran_at = 5\<rparr>])
   \<and> \<not> fst (claim 1 0 6 (snd (claim 1 0 5 [])))
   \<and> (1, 0) \<in> set (map pk [\<lparr>user_id = 1, local_date = 0, ran_at = 5\<rparr>])
   \<and> claim 1 0 6 [\<lparr>user_id = 1, local_date = 0, ran_at = 5\<rparr>]
       = (False, [\<lparr>user_id = 1, local_date = 0, ran_at = 5\<rparr>])"
  using claim_true_iff_absent [of 1 0 5 "[]" 6]
    claim_true_iff_absent [of 1 0 6 "[\<lparr>user_id = 1, local_date = 0, ran_at = 5\<rparr>]" 6]
  by (simp add: pk_def prod_eq_iff)

section \<open>The query\<close>

lemma where_row_Some:
  "(where_row tzdb n p x = Inr (Some c)) =
   (timezone x = Some (snd c) \<and> profile_id x = fst c \<and> date_changed tzdb (snd c) n p = Inr True)"
  by (cases c) (auto simp: where_row_def split: option.splits sum.splits)

lemma select_candidates_iff:
  "select_candidates tzdb n p ps = Inr cs \<Longrightarrow>
   ((u, tz) \<in> set cs) =
   ((\<exists>x\<in>set ps. profile_id x = u \<and> timezone x = Some tz) \<and> date_changed tzdb tz n p = Inr True)"
proof (induction ps arbitrary: cs)
  case Nil
  then show ?case by simp
next
  case (Cons x xs)
  from Cons.prems obtain c cs' where
    w: "where_row tzdb n p x = Inr c" and s: "select_candidates tzdb n p xs = Inr cs'"
    and cs: "cs = (case c of None \<Rightarrow> cs' | Some r \<Rightarrow> r # cs')"
    by (auto split: sum.splits)
  note IH = Cons.IH [OF s]
  show ?case
  proof (cases c)
    case None
    then have "\<not> (timezone x = Some tz \<and> profile_id x = u \<and> date_changed tzdb tz n p = Inr True)"
      using w by (auto simp: where_row_def split: option.splits sum.splits if_splits)
    with None cs IH show ?thesis by auto
  next
    case (Some r)
    with w have "timezone x = Some (snd r) \<and> profile_id x = fst r
        \<and> date_changed tzdb (snd r) n p = Inr True"
      by (simp add: where_row_Some)
    with Some cs IH show ?thesis by (cases r) auto
  qed
qed

lemma date_changed_True_iff:
  "(date_changed tzdb tz n p = Inr True) =
   (\<exists>z. tzdb tz = Some z \<and> at_time_zone_date z n \<noteq> at_time_zone_date z p)"
  by (auto simp: date_changed_def local_date_of_def split: option.splits)

lemma zones_Bogota: "zones ''America/Bogota'' = Some utc_minus_5"
  by (simp add: zones_def)

lemma zones_Date_Line: "zones ''Date/Line'' = Some date_line_zone"
  by (simp add: zones_def)

lemma select_candidates_append:
  "select_candidates tzdb n p (ps1 @ ps2) =
     (case select_candidates tzdb n p ps1 of
        Inl e \<Rightarrow> Inl e
      | Inr cs1 \<Rightarrow>
          (case select_candidates tzdb n p ps2 of
             Inl e \<Rightarrow> Inl e
           | Inr cs2 \<Rightarrow> Inr (cs1 @ cs2)))"
  by (induction ps1) (auto split: sum.splits option.splits)

lemma rows_passing_where_append:
  "rows_passing_where tzdb n p (ps1 @ ps2) =
     rows_passing_where tzdb n p ps1 @ rows_passing_where tzdb n p ps2"
  by (induction ps1) (auto split: sum.splits option.splits)

lemma select_is_passing:
  "select_candidates tzdb n p ps = Inr cs \<Longrightarrow> cs = rows_passing_where tzdb n p ps"
  by (induction ps arbitrary: cs) (auto split: sum.splits option.splits)

lemma where_row_Inl:
  "where_row tzdb n p x = Inl e \<Longrightarrow>
   \<exists>tz. timezone x = Some tz \<and> tzdb tz = None \<and> e = Time_Zone_Not_Recognized tz"
  by (auto simp: where_row_def date_changed_def local_date_of_def split: option.splits sum.splits)

lemma select_Inl_source:
  "select_candidates tzdb n p ps = Inl e \<Longrightarrow>
   \<exists>x\<in>set ps. \<exists>tz. timezone x = Some tz \<and> tzdb tz = None \<and> e = Time_Zone_Not_Recognized tz"
proof (induction ps)
  case Nil
  then show ?case by simp
next
  case (Cons x xs)
  show ?case
  proof (cases "where_row tzdb n p x")
    case (Inl e')
    with Cons.prems have "e' = e" by simp
    with Inl where_row_Inl [of tzdb n p x e] show ?thesis by auto
  next
    case (Inr c)
    with Cons.prems have "select_candidates tzdb n p xs = Inl e" by (auto split: sum.splits)
    from Cons.IH [OF this] show ?thesis by auto
  qed
qed

lemma fetch_Inr:
  "fetch tzdb n p k ps = Inr (rs, rest) \<Longrightarrow>
   \<exists>ps1. ps = ps1 @ rest \<and> select_candidates tzdb n p ps1 = Inr rs
      \<and> (length rs < k \<longrightarrow> rest = [])"
proof (induction ps arbitrary: k rs rest)
  case Nil
  then show ?case by simp
next
  case (Cons x xs)
  show ?case
  proof (cases "k = 0")
    case True
    with Cons.prems have "rs = []" "rest = x # xs" by simp_all
    then have "x # xs = [] @ rest \<and> select_candidates tzdb n p [] = Inr rs
        \<and> (length rs < k \<longrightarrow> rest = [])" using True by simp
    then show ?thesis by blast
  next
    case False
    show ?thesis
    proof (cases "where_row tzdb n p x")
      case (Inl e)
      with False Cons.prems show ?thesis by simp
    next
      case (Inr c)
      show ?thesis
      proof (cases c)
        case None
        with Inr False Cons.prems have "fetch tzdb n p k xs = Inr (rs, rest)" by simp
        from Cons.IH [OF this] obtain ps1 where
          "xs = ps1 @ rest" "select_candidates tzdb n p ps1 = Inr rs" "length rs < k \<longrightarrow> rest = []"
          by blast
        with Inr None have "x # xs = (x # ps1) @ rest
            \<and> select_candidates tzdb n p (x # ps1) = Inr rs \<and> (length rs < k \<longrightarrow> rest = [])"
          by simp
        then show ?thesis by blast
      next
        case (Some r)
        with Inr False Cons.prems obtain rs' where
          f: "fetch tzdb n p (k - 1) xs = Inr (rs', rest)" and rs: "rs = r # rs'"
          by (auto split: sum.splits)
        from Cons.IH [OF f] obtain ps1 where
          "xs = ps1 @ rest" "select_candidates tzdb n p ps1 = Inr rs'"
          "length rs' < k - 1 \<longrightarrow> rest = []" by blast
        with Inr Some rs False have "x # xs = (x # ps1) @ rest
            \<and> select_candidates tzdb n p (x # ps1) = Inr rs \<and> (length rs < k \<longrightarrow> rest = [])"
          by auto
        then show ?thesis by blast
      qed
    qed
  qed
qed

lemma fetch_Inl:
  "fetch tzdb n p k ps = Inl e \<Longrightarrow> select_candidates tzdb n p ps = Inl e"
proof (induction ps arbitrary: k)
  case Nil
  then show ?case by simp
next
  case (Cons x xs)
  from Cons.prems have k: "k \<noteq> 0" by (auto split: if_splits)
  show ?case
  proof (cases "where_row tzdb n p x")
    case (Inl e')
    with k Cons.prems show ?thesis by simp
  next
    case (Inr c)
    show ?thesis
    proof (cases c)
      case None
      with Inr k Cons.prems have "fetch tzdb n p k xs = Inl e" by simp
      from Cons.IH [OF this] Inr show ?thesis by simp
    next
      case (Some r)
      with Inr k Cons.prems have "fetch tzdb n p (k - 1) xs = Inl e"
        by (auto split: sum.splits)
      from Cons.IH [OF this] Inr show ?thesis by simp
    qed
  qed
qed

lemma select_prefix_passing:
  "select_candidates tzdb n p ps1 = Inr cs \<Longrightarrow>
   rows_passing_where tzdb n p (ps1 @ ps2) = cs @ rows_passing_where tzdb n p ps2"
  using select_is_passing [of tzdb n p ps1 cs] by (simp add: rows_passing_where_append)

lemma select_prefix_iff:
  assumes "select_candidates tzdb n p ps1 = Inr cs" and "c \<in> set cs"
  shows "(\<exists>x\<in>set (ps1 @ ps2). profile_id x = fst c \<and> timezone x = Some (snd c))
    \<and> date_changed tzdb (snd c) n p = Inr True"
  using select_candidates_iff [OF assms(1), of "fst c" "snd c"] assms(2) by auto

lemma rows_passing_where_iff:
  "((u, tz) \<in> set (rows_passing_where tzdb n p ps)) =
   ((\<exists>x\<in>set ps. profile_id x = u \<and> timezone x = Some tz) \<and> date_changed tzdb tz n p = Inr True)"
proof (induction ps)
  case Nil
  then show ?case by simp
next
  case (Cons x xs)
  show ?case
  proof (cases "where_row tzdb n p x")
    case (Inl e)
    then have "\<not> (timezone x = Some tz \<and> profile_id x = u \<and> date_changed tzdb tz n p = Inr True)"
      by (auto simp: where_row_def split: option.splits sum.splits if_splits)
    with Inl Cons.IH show ?thesis by auto
  next
    case (Inr c)
    show ?thesis
    proof (cases c)
      case None
      with Inr have "\<not> (timezone x = Some tz \<and> profile_id x = u \<and> date_changed tzdb tz n p = Inr True)"
        by (auto simp: where_row_def split: option.splits sum.splits if_splits)
      with Inr None Cons.IH show ?thesis by auto
    next
      case (Some r)
      with Inr have "timezone x = Some (snd r) \<and> profile_id x = fst r
          \<and> date_changed tzdb (snd r) n p = Inr True"
        by (simp add: where_row_Some)
      with Inr Some Cons.IH show ?thesis by (cases r) auto
    qed
  qed
qed

section \<open>The loop body and the rows of a batch\<close>

lemma insert_keeps_pk:
  "distinct (map pk T) \<Longrightarrow> distinct (map pk (snd (insert_on_conflict_do_nothing row T)))"
  by (simp add: insert_on_conflict_do_nothing_def)

lemma claim_keeps_pk:
  "distinct (map pk T) \<Longrightarrow> distinct (map pk (snd (claim u d now T)))"
  using insert_keeps_pk [of T] by (simp add: claim_def split: prod.splits) (metis snd_conv)

lemma purge_keeps_pk:
  "distinct (map pk T) \<Longrightarrow> distinct (map pk (snd (purge_older_than h T)))"
  by (simp add: purge_older_than_def distinct_map_filter)

lemma loop_body_keeps_pk:
  "loop_body sessionize tzdb now g l r s = (e, s') \<Longrightarrow> distinct (map pk (user_midnight_runs s))
   \<Longrightarrow> distinct (map pk (user_midnight_runs s'))"
  using claim_keeps_pk [of "user_midnight_runs s"]
  by (auto simp: loop_body_def Let_def split: sum.splits prod.splits if_splits) (metis snd_conv)+

lemma for_loop_keeps_pk:
  "for_loop sessionize tzdb now g l cs s = (e, s') \<Longrightarrow> distinct (map pk (user_midnight_runs s))
   \<Longrightarrow> distinct (map pk (user_midnight_runs s'))"
proof (induction cs arbitrary: s)
  case Nil
  then show ?case by simp
next
  case (Cons r rs)
  obtain e1 s1 where b: "loop_body sessionize tzdb now g l r s = (e1, s1)" by fastforce
  from loop_body_keeps_pk [OF b Cons.prems(2)]
  have d1: "distinct (map pk (user_midnight_runs s1))" .
  show ?case
  proof (cases e1)
    case None
    with b Cons.prems(1) have "for_loop sessionize tzdb now g l rs s1 = (e, s')" by simp
    then show ?thesis using d1 by (rule Cons.IH)
  next
    case (Some a)
    with b Cons.prems(1) have "s' = s1" by simp
    with d1 show ?thesis by simp
  qed
qed

lemma loop_body_cases:
  assumes "loop_body sessionize tzdb now g l r s = (e, s')"
  obtains
    (unknown_zone) "tzdb (snd r) = None" "e = Some (Time_Zone_Not_Recognized (snd r))" "s' = s"
  | (lost) z where "tzdb (snd r) = Some z"
      "(fst r, at_time_zone_date z now) \<in> set (map pk (user_midnight_runs s))"
      "e = None"
      "s' = s\<lparr>claimed := claimed s @ [(fst r, at_time_zone_date z now, False)]\<rparr>"
  | (failed) z x where "tzdb (snd r) = Some z"
      "(fst r, at_time_zone_date z now) \<notin> set (map pk (user_midnight_runs s))"
      "sessionize (fst r) g l = Inl x" "e = Some x"
      "s' = s\<lparr>user_midnight_runs := user_midnight_runs s @
                  [\<lparr>user_id = fst r, local_date = at_time_zone_date z now, ran_at = now\<rparr>],
               claimed := claimed s @ [(fst r, at_time_zone_date z now, True)],
               performed := performed s @ [(fst r, g, l)]\<rparr>"
  | (invoked) z n where "tzdb (snd r) = Some z"
      "(fst r, at_time_zone_date z now) \<notin> set (map pk (user_midnight_runs s))"
      "sessionize (fst r) g l = Inr n" "e = None"
      "s' = s\<lparr>user_midnight_runs := user_midnight_runs s @
                  [\<lparr>user_id = fst r, local_date = at_time_zone_date z now, ran_at = now\<rparr>],
               claimed := claimed s @ [(fst r, at_time_zone_date z now, True)],
               performed := performed s @ [(fst r, g, l)],
               runs := runs s + 1\<rparr>"
proof (cases "tzdb (snd r)")
  case None
  with assms unknown_zone show ?thesis
    by (simp add: loop_body_def local_date_of_def)
next
  case (Some z)
  show ?thesis
  proof (cases "(fst r, at_time_zone_date z now) \<in> set (map pk (user_midnight_runs s))")
    case True
    with assms Some lost[of z] show ?thesis
      by (simp add: loop_body_def local_date_of_def claim_def insert_on_conflict_do_nothing_def pk_def)
  next
    case False
    show ?thesis
    proof (cases "sessionize (fst r) g l")
      case (Inl x)
      with assms Some False failed[of z x] show ?thesis
        by (simp add: loop_body_def local_date_of_def claim_def insert_on_conflict_do_nothing_def pk_def)
    next
      case (Inr n)
      with assms Some False invoked[of z n] show ?thesis
        by (simp add: loop_body_def local_date_of_def claim_def insert_on_conflict_do_nothing_def pk_def)
    qed
  qed
qed

lemma for_loop_Cons_cases:
  assumes "for_loop sessionize tzdb now g l (r # rs) s = (e, s')"
  obtains
    (stop) x where "loop_body sessionize tzdb now g l r s = (Some x, s')" "e = Some x"
  | (continue) s1 where "loop_body sessionize tzdb now g l r s = (None, s1)"
      "for_loop sessionize tzdb now g l rs s1 = (e, s')"
proof -
  obtain e1 s1 where b: "loop_body sessionize tzdb now g l r s = (e1, s1)" by fastforce
  show ?thesis
  proof (cases e1)
    case None
    with assms b have "loop_body sessionize tzdb now g l r s = (None, s1)"
      "for_loop sessionize tzdb now g l rs s1 = (e, s')" by simp_all
    then show ?thesis by (rule continue)
  next
    case (Some x)
    with assms b have "loop_body sessionize tzdb now g l r s = (Some x, s')" "e = Some x" by simp_all
    then show ?thesis by (rule stop)
  qed
qed

lemma for_loop_failure:
  assumes "for_loop sessionize tzdb now g l cs s = (e, s')"
    and "(u, d, True) \<in> set (claimed s')" and "(u, d, True) \<notin> set (claimed s)"
    and "sessionize u g l = Inl x"
  shows "e = Some x \<and> (\<exists>pre tz post. cs = pre @ (u, tz) # post \<and>
           map fst (claimed s') = map fst (claimed s) @ map fst pre @ [u])"
  using assms
proof (induction cs arbitrary: s)
  case Nil
  then show ?case by simp
next
  case (Cons r rs)
  from Cons.prems(1) show ?case
  proof (cases rule: for_loop_Cons_cases)
    case (stop y)
    from stop(1) show ?thesis
    proof (cases rule: loop_body_cases)
      case unknown_zone
      with Cons.prems show ?thesis by simp
    next
      case (failed z y')
      with Cons.prems stop have "u = fst r" by auto
      with failed Cons.prems stop have "e = Some x" by simp
      moreover have "r # rs = [] @ (u, snd r) # rs" using \<open>u = fst r\<close> by simp
      moreover have "map fst (claimed s') = map fst (claimed s) @ map fst [] @ [u]"
        using failed \<open>u = fst r\<close> by simp
      ultimately show ?thesis by blast
    qed simp_all
  next
    case (continue s1)
    from continue(1) have "(u, d, True) \<notin> set (claimed s1) \<and>
        map fst (claimed s1) = map fst (claimed s) @ [fst r]"
    proof (cases rule: loop_body_cases)
      case (lost z)
      with Cons.prems show ?thesis by simp
    next
      case (invoked z n)
      with Cons.prems show ?thesis by auto
    qed simp_all
    then have new: "(u, d, True) \<notin> set (claimed s1)"
      and app: "map fst (claimed s1) = map fst (claimed s) @ [fst r]" by simp_all
    from Cons.IH[OF continue(2) Cons.prems(2) new Cons.prems(4)]
    obtain pre tz post where e: "e = Some x" and rs: "rs = pre @ (u, tz) # post"
      and m: "map fst (claimed s') = map fst (claimed s1) @ map fst pre @ [u]" by blast
    have "r # rs = (r # pre) @ (u, tz) # post" using rs by simp
    moreover have "map fst (claimed s') = map fst (claimed s) @ map fst (r # pre) @ [u]"
      using m app by simp
    ultimately show ?thesis using e by blast
  qed
qed



lemma loop_body_lost:
  "tzdb (snd r) = Some z \<Longrightarrow>
   (fst r, at_time_zone_date z now) \<in> set (map pk (user_midnight_runs s)) \<Longrightarrow>
   loop_body sessionize tzdb now g l r s =
     (None, s\<lparr>claimed := claimed s @ [(fst r, at_time_zone_date z now, False)]\<rparr>)"
  by (simp add: loop_body_def local_date_of_def claim_def insert_on_conflict_do_nothing_def pk_def)

lemma for_loop_completed:
  assumes "for_loop sessionize tzdb now g l cs s = (None, s')"
  shows "\<exists>N C. user_midnight_runs s' = user_midnight_runs s @ N \<and> claimed s' = claimed s @ C
     \<and> performed s' = performed s @ map (\<lambda>r. (user_id r, g, l)) N
     \<and> runs s' = runs s + int (length N)
     \<and> map fst C = map fst cs
     \<and> map attempt_key (filter attempt_won C) = map pk N
     \<and> distinct (map pk N)
     \<and> set (map pk N) = set (map attempt_key C) - set (map pk (user_midnight_runs s))"
  using assms
proof (induction cs arbitrary: s)
  case Nil
  then show ?case by simp
next
  case (Cons r rs)
  from Cons.prems show ?case
  proof (cases rule: for_loop_Cons_cases)
    case (continue s1)
    from Cons.IH [OF continue(2)] obtain N C where
      t: "user_midnight_runs s' = user_midnight_runs s1 @ N" and c: "claimed s' = claimed s1 @ C"
      and p: "performed s' = performed s1 @ map (\<lambda>r. (user_id r, g, l)) N"
      and n: "runs s' = runs s1 + int (length N)"
      and m: "map fst C = map fst rs"
      and w: "map attempt_key (filter attempt_won C) = map pk N"
      and d: "distinct (map pk N)"
      and k: "set (map pk N) = set (map attempt_key C) - set (map pk (user_midnight_runs s1))"
      by blast
    from continue(1) show ?thesis
    proof (cases rule: loop_body_cases)
      case (lost z)
      let ?a = "(fst r, at_time_zone_date z now, False)"
      have "user_midnight_runs s' = user_midnight_runs s @ N" using t lost by simp
      moreover have "claimed s' = claimed s @ (?a # C)" using c lost by simp
      moreover have "performed s' = performed s @ map (\<lambda>r. (user_id r, g, l)) N" using p lost by simp
      moreover have "runs s' = runs s + int (length N)" using n lost by simp
      moreover have "map fst (?a # C) = map fst (r # rs)" using m by simp
      moreover have "map attempt_key (filter attempt_won (?a # C)) = map pk N"
        using w by (simp add: attempt_won_def)
      moreover have "set (map pk N) = set (map attempt_key (?a # C)) - set (map pk (user_midnight_runs s))"
        using k lost by (auto simp: attempt_key_def)
      ultimately show ?thesis using d by blast
    next
      case (invoked z n')
      let ?a = "(fst r, at_time_zone_date z now, True)"
      let ?row = "\<lparr>user_id = fst r, local_date = at_time_zone_date z now, ran_at = now\<rparr>"
      have "user_midnight_runs s' = user_midnight_runs s @ (?row # N)" using t invoked by simp
      moreover have "claimed s' = claimed s @ (?a # C)" using c invoked by simp
      moreover have "performed s' = performed s @ map (\<lambda>r. (user_id r, g, l)) (?row # N)"
        using p invoked by simp
      moreover have "runs s' = runs s + int (length (?row # N))" using n invoked by simp
      moreover have "map fst (?a # C) = map fst (r # rs)" using m by simp
      moreover have "map attempt_key (filter attempt_won (?a # C)) = map pk (?row # N)"
        using w by (simp add: attempt_won_def attempt_key_def pk_def)
      moreover have "distinct (map pk (?row # N))"
        using d k invoked by (auto simp: pk_def)
      moreover have "set (map pk (?row # N)) = set (map attempt_key (?a # C)) - set (map pk (user_midnight_runs s))"
        using k invoked by (auto simp: attempt_key_def pk_def)
      ultimately show ?thesis by blast
    qed simp_all
  qed simp
qed

lemma for_loop_claim_dates:
  assumes "for_loop sessionize tzdb now g l cs s = (e, s')"
    and "a \<in> set (claimed s')" and "a \<notin> set (claimed s)"
  shows "\<exists>tz z. (fst a, tz) \<in> set cs \<and> tzdb tz = Some z \<and> fst (snd a) = at_time_zone_date z now"
  using assms
proof (induction cs arbitrary: s)
  case Nil
  then show ?case by simp
next
  case (Cons r rs)
  have here: "\<exists>tz z. (fst a, tz) \<in> set (r # rs) \<and> tzdb tz = Some z \<and> fst (snd a) = at_time_zone_date z now"
    if "tzdb (snd r) = Some z" "a = (fst r, at_time_zone_date z now, b)" for z b
  proof -
    have "(fst a, snd r) \<in> set (r # rs)" using that by simp
    then show ?thesis using that by fastforce
  qed
  from Cons.prems(1) show ?case
  proof (cases rule: for_loop_Cons_cases)
    case (stop x)
    from stop(1) show ?thesis
    proof (cases rule: loop_body_cases)
      case unknown_zone
      with Cons.prems show ?thesis by simp
    next
      case (failed z y)
      with Cons.prems have "a = (fst r, at_time_zone_date z now, True)" by auto
      with failed(1) show ?thesis by (rule here)
    qed simp_all
  next
    case (continue s1)
    show ?thesis
    proof (cases "a \<in> set (claimed s1)")
      case True
      from continue(1) show ?thesis
      proof (cases rule: loop_body_cases)
        case (lost z)
        with True Cons.prems have "a = (fst r, at_time_zone_date z now, False)" by auto
        with lost(1) show ?thesis by (rule here)
      next
        case (invoked z n)
        with True Cons.prems have "a = (fst r, at_time_zone_date z now, True)" by auto
        with invoked(1) show ?thesis by (rule here)
      qed simp_all
    next
      case False
      from Cons.IH [OF continue(2) Cons.prems(2) False] show ?thesis by auto
    qed
  qed
qed

lemma for_loop_claimed_mono:
  "for_loop sessionize tzdb now g l cs s = (e, s') \<Longrightarrow> set (claimed s) \<subseteq> set (claimed s')"
proof (induction cs arbitrary: s)
  case Nil
  then show ?case by simp
next
  case (Cons r rs)
  from Cons.prems show ?case
  proof (cases rule: for_loop_Cons_cases)
    case (stop x)
    from stop(1) show ?thesis by (cases rule: loop_body_cases) auto
  next
    case (continue s1)
    from continue(1) have "set (claimed s) \<subseteq> set (claimed s1)"
      by (cases rule: loop_body_cases) auto
    with Cons.IH [OF continue(2)] show ?thesis by blast
  qed
qed

lemma for_loop_new_rows:
  assumes "for_loop sessionize tzdb now g l cs s = (e, s')"
    and "row \<in> set (user_midnight_runs s')" and "row \<notin> set (user_midnight_runs s)"
  shows "(user_id row, local_date row, True) \<in> set (claimed s') \<and> ran_at row = now"
  using assms
proof (induction cs arbitrary: s)
  case Nil
  then show ?case by simp
next
  case (Cons r rs)
  from Cons.prems(1) show ?case
  proof (cases rule: for_loop_Cons_cases)
    case (stop x)
    from stop(1) show ?thesis
      by (cases rule: loop_body_cases) (use Cons.prems in auto)
  next
    case (continue s1)
    show ?thesis
    proof (cases "row \<in> set (user_midnight_runs s1)")
      case True
      from continue(1) have "(user_id row, local_date row, True) \<in> set (claimed s1) \<and> ran_at row = now"
        by (cases rule: loop_body_cases) (use True Cons.prems in auto)
      moreover have "set (claimed s1) \<subseteq> set (claimed s')"
        using continue(2) by (rule for_loop_claimed_mono)
      ultimately show ?thesis by auto
    next
      case False
      from Cons.IH [OF continue(2) Cons.prems(2) False] show ?thesis .
    qed
  qed
qed

lemma loop_body_table_mono:
  "loop_body sessionize tzdb now g l r s = (e, s') \<Longrightarrow>
   set (user_midnight_runs s) \<subseteq> set (user_midnight_runs s')"
  by (erule loop_body_cases) auto

lemma for_loop_table_mono:
  "for_loop sessionize tzdb now g l cs s = (e, s') \<Longrightarrow>
   set (user_midnight_runs s) \<subseteq> set (user_midnight_runs s')"
proof (induction cs arbitrary: s)
  case Nil
  then show ?case by simp
next
  case (Cons r rs)
  from Cons.prems show ?case
  proof (cases rule: for_loop_Cons_cases)
    case (stop x)
    then show ?thesis by (simp add: loop_body_table_mono)
  next
    case (continue s1)
    from loop_body_table_mono [OF continue(1)] Cons.IH [OF continue(2)]
    show ?thesis by blast
  qed
qed

lemma for_loop_won_was_absent:
  assumes "for_loop sessionize tzdb now g l cs s = (e, s')"
    and "(u, d, True) \<in> set (claimed s')" and "(u, d, True) \<notin> set (claimed s)"
  shows "(u, d) \<notin> set (map pk (user_midnight_runs s))"
  using assms
proof (induction cs arbitrary: s)
  case Nil
  then show ?case by simp
next
  case (Cons r rs)
  from Cons.prems(1) show ?case
  proof (cases rule: for_loop_Cons_cases)
    case (stop x)
    from stop(1) show ?thesis
      by (cases rule: loop_body_cases) (use Cons.prems in auto)
  next
    case (continue s1)
    show ?thesis
    proof (cases "(u, d, True) \<in> set (claimed s1)")
      case True
      from continue(1) show ?thesis
        by (cases rule: loop_body_cases) (use True Cons.prems in auto)
    next
      case False
      from Cons.IH [OF continue(2) Cons.prems(2) False]
      have "(u, d) \<notin> set (map pk (user_midnight_runs s1))" .
      with loop_body_table_mono [OF continue(1)] show ?thesis by auto
    qed
  qed
qed

lemma for_loop_error_source:
  "for_loop sessionize tzdb now g l cs s = (Some x, s') \<Longrightarrow>
   \<exists>c\<in>set cs. tzdb (snd c) = None \<or> sessionize (fst c) g l = Inl x"
proof (induction cs arbitrary: s)
  case Nil
  then show ?case by simp
next
  case (Cons r rs)
  from Cons.prems show ?case
  proof (cases rule: for_loop_Cons_cases)
    case (stop y)
    from stop(1) have "tzdb (snd r) = None \<or> sessionize (fst r) g l = Inl x"
      by (cases rule: loop_body_cases) (use stop(2) in auto)
    then show ?thesis by simp
  next
    case (continue s1)
    from Cons.IH [OF continue(2)] show ?thesis by auto
  qed
qed

lemma for_loop_candidates_present:
  assumes "for_loop sessionize tzdb now g l cs s = (None, s')" and "c \<in> set cs"
  shows "\<exists>z. tzdb (snd c) = Some z \<and>
           (fst c, at_time_zone_date z now) \<in> set (map pk (user_midnight_runs s'))"
  using assms
proof (induction cs arbitrary: s)
  case Nil
  then show ?case by simp
next
  case (Cons r rs)
  from Cons.prems(1) show ?case
  proof (cases rule: for_loop_Cons_cases)
    case (continue s1)
    show ?thesis
    proof (cases "c = r")
      case True
      from continue(1) obtain z where "tzdb (snd r) = Some z"
        "(fst r, at_time_zone_date z now) \<in> set (map pk (user_midnight_runs s1))"
        by (cases rule: loop_body_cases) (auto simp: pk_def)
      with for_loop_table_mono [OF continue(2)] True show ?thesis by auto
    next
      case False
      with Cons.prems(2) have "c \<in> set rs" by simp
      with Cons.IH [OF continue(2)] show ?thesis by blast
    qed
  qed simp
qed

lemma for_loop_replay:
  assumes "\<forall>c\<in>set cs. \<exists>z. tzdb (snd c) = Some z \<and>
             (fst c, at_time_zone_date z now) \<in> set (map pk (user_midnight_runs s))"
  shows "\<exists>C. for_loop sessionize tzdb now g l cs s = (None, s\<lparr>claimed := claimed s @ C\<rparr>)
           \<and> filter attempt_won C = [] \<and> map fst C = map fst cs"
  using assms
proof (induction cs arbitrary: s)
  case Nil
  then show ?case by simp
next
  case (Cons r rs)
  from Cons.prems obtain z where z: "tzdb (snd r) = Some z"
    "(fst r, at_time_zone_date z now) \<in> set (map pk (user_midnight_runs s))" by auto
  let ?a = "(fst r, at_time_zone_date z now, False)"
  let ?s1 = "s\<lparr>claimed := claimed s @ [?a]\<rparr>"
  have b: "loop_body sessionize tzdb now g l r s = (None, ?s1)"
    using z by (rule loop_body_lost)
  have "\<forall>c\<in>set rs. \<exists>z. tzdb (snd c) = Some z \<and>
             (fst c, at_time_zone_date z now) \<in> set (map pk (user_midnight_runs ?s1))"
    using Cons.prems by simp
  from Cons.IH [OF this] obtain C where
    C: "for_loop sessionize tzdb now g l rs ?s1 = (None, ?s1\<lparr>claimed := claimed ?s1 @ C\<rparr>)"
      "filter attempt_won C = []" "map fst C = map fst rs" by blast
  have "for_loop sessionize tzdb now g l (r # rs) s = (None, s\<lparr>claimed := claimed s @ (?a # C)\<rparr>)"
    using b C(1) by simp
  moreover have "filter attempt_won (?a # C) = []" using C(2) by (simp add: attempt_won_def)
  moreover have "map fst (?a # C) = map fst (r # rs)" using C(3) by simp
  ultimately show ?case by blast
qed

lemma candidates_have_zone:
  "select_candidates tzdb n p ps = Inr cs \<Longrightarrow> c \<in> set cs \<Longrightarrow>
   \<exists>z. tzdb (snd c) = Some z \<and> at_time_zone_date z n \<noteq> at_time_zone_date z p"
  using select_candidates_iff [of tzdb n p ps cs "fst c" "snd c"]
  by (simp add: date_changed_True_iff)

lemma loop_body_calls_inv:
  assumes "loop_body sessionize tzdb now g l r s = (e, s')"
    and "performed s = map (\<lambda>a. (fst a, g, l)) (filter attempt_won (claimed s))"
  shows "performed s' = map (\<lambda>a. (fst a, g, l)) (filter attempt_won (claimed s'))"
  using assms(1)
  by (cases rule: loop_body_cases) (use assms(2) in \<open>simp_all add: attempt_won_def\<close>)

lemma for_loop_calls_inv:
  assumes "for_loop sessionize tzdb now g l cs s = (e, s')"
    and "performed s = map (\<lambda>a. (fst a, g, l)) (filter attempt_won (claimed s))"
  shows "performed s' = map (\<lambda>a. (fst a, g, l)) (filter attempt_won (claimed s'))"
  using assms
proof (induction cs arbitrary: s)
  case Nil
  then show ?case by simp
next
  case (Cons r rs)
  from Cons.prems(1) show ?case
  proof (cases rule: for_loop_Cons_cases)
    case (stop x)
    from loop_body_calls_inv [OF stop(1) Cons.prems(2)] show ?thesis .
  next
    case (continue s1)
    from loop_body_calls_inv [OF continue(1) Cons.prems(2)] show ?thesis
      by (rule Cons.IH [OF continue(2)])
  qed
qed

lemma for_loop_append:
  "for_loop sessionize tzdb now g l (cs1 @ cs2) s =
     (case for_loop sessionize tzdb now g l cs1 s of
        (Some e, s') \<Rightarrow> (Some e, s')
      | (None, s') \<Rightarrow> for_loop sessionize tzdb now g l cs2 s')"
  by (induction cs1 arbitrary: s) (auto split: prod.splits option.splits)

lemma for_loop_failure_last:
  assumes "for_loop sessionize tzdb now g l cs s = (e, s')"
    and "(u, d, True) \<in> set (claimed s')" and "(u, d, True) \<notin> set (claimed s)"
    and "sessionize u g l = Inl x"
  shows "e = Some x \<and> (\<exists>pre tz post C. cs = pre @ (u, tz) # post \<and>
           claimed s' = claimed s @ C @ [(u, d, True)] \<and> map fst C = map fst pre)"
  using assms
proof (induction cs arbitrary: s)
  case Nil
  then show ?case by simp
next
  case (Cons r rs)
  from Cons.prems(1) show ?case
  proof (cases rule: for_loop_Cons_cases)
    case (stop y)
    from stop(1) show ?thesis
    proof (cases rule: loop_body_cases)
      case unknown_zone
      with Cons.prems show ?thesis by simp
    next
      case (failed z y')
      with Cons.prems stop have ud: "u = fst r" "d = at_time_zone_date z now" by auto
      with failed Cons.prems stop have "e = Some x" by simp
      moreover have "r # rs = [] @ (u, snd r) # rs" using ud by simp
      moreover have "claimed s' = claimed s @ [] @ [(u, d, True)]" using failed ud by simp
      moreover have "map fst ([] :: (uuid \<times> date \<times> bool) list) = map fst ([] :: (uuid \<times> string) list)"
        by simp
      ultimately show ?thesis by blast
    qed simp_all
  next
    case (continue s1)
    from continue(1) have "(u, d, True) \<notin> set (claimed s1) \<and>
        (\<exists>a. claimed s1 = claimed s @ [a] \<and> fst a = fst r)"
    proof (cases rule: loop_body_cases)
      case (lost z)
      with Cons.prems show ?thesis by simp
    next
      case (invoked z n)
      with Cons.prems show ?thesis by auto
    qed simp_all
    then obtain a where new: "(u, d, True) \<notin> set (claimed s1)"
      and app: "claimed s1 = claimed s @ [a]" "fst a = fst r" by blast
    from Cons.IH [OF continue(2) Cons.prems(2) new Cons.prems(4)]
    obtain pre tz post C where e: "e = Some x" and rs: "rs = pre @ (u, tz) # post"
      and m: "claimed s' = claimed s1 @ C @ [(u, d, True)]" "map fst C = map fst pre" by blast
    have "r # rs = (r # pre) @ (u, tz) # post" using rs by simp
    moreover have "claimed s' = claimed s @ (a # C) @ [(u, d, True)]" using m app by simp
    moreover have "map fst (a # C) = map fst (r # pre)" using m app by simp
    ultimately show ?thesis using e by blast
  qed
qed

lemma for_loop_raised:
  assumes "for_loop sessionize tzdb now g l cs s = (Some x, s')"
    and "\<forall>c\<in>set cs. tzdb (snd c) \<noteq> None"
  shows "\<exists>u d. (u, d, True) \<in> set (claimed s') \<and> sessionize u g l = Inl x"
  using assms
proof (induction cs arbitrary: s)
  case Nil
  then show ?case by simp
next
  case (Cons r rs)
  from Cons.prems(1) show ?case
  proof (cases rule: for_loop_Cons_cases)
    case (stop y)
    from stop(1) show ?thesis
    proof (cases rule: loop_body_cases)
      case unknown_zone
      with Cons.prems(2) show ?thesis by simp
    next
      case (failed z y')
      with stop show ?thesis by auto
    qed simp_all
  next
    case (continue s1)
    from Cons.prems(2) have "\<forall>c\<in>set rs. tzdb (snd c) \<noteq> None" by simp
    from Cons.IH [OF continue(2) this] show ?thesis .
  qed
qed

lemma for_loop_completed_pairs:
  assumes "for_loop sessionize tzdb now g l cs s = (None, s')"
  shows "\<exists>C. claimed s' = claimed s @ C \<and> map attempt_key C = candidate_pairs tzdb now cs"
  using assms
proof (induction cs arbitrary: s)
  case Nil
  then show ?case by simp
next
  case (Cons r rs)
  from Cons.prems show ?case
  proof (cases rule: for_loop_Cons_cases)
    case (continue s1)
    from continue(1) obtain z b where z: "tzdb (snd r) = Some z"
      and c1: "claimed s1 = claimed s @ [(fst r, at_time_zone_date z now, b)]"
      by (cases rule: loop_body_cases) auto
    from Cons.IH [OF continue(2)] obtain C where
      C: "claimed s' = claimed s1 @ C" "map attempt_key C = candidate_pairs tzdb now rs" by blast
    have "claimed s' = claimed s @ ((fst r, at_time_zone_date z now, b) # C)"
      using c1 C(1) by simp
    moreover have "map attempt_key ((fst r, at_time_zone_date z now, b) # C)
        = candidate_pairs tzdb now (r # rs)"
      using z C(2) by (simp add: attempt_key_def)
    ultimately show ?thesis by blast
  qed simp
qed

section \<open>The cursor and a whole call of the function\<close>

lemma exec_for_query_run:
  assumes "exec_for_query sessionize tzdb now prev g l k ps s = (e, sel, s')" and "0 < k"
  shows "\<exists>ps1 ps2 e'. ps = ps1 @ ps2 \<and> select_candidates tzdb now prev ps1 = Inr sel
      \<and> for_loop sessionize tzdb now g l sel s = (e', s')
      \<and> ((e = None \<and> e' = None \<and> ps2 = [])
          \<or> (\<exists>x. e = Some x \<and> e' = Some x)
          \<or> (\<exists>x. e = Some x \<and> e' = None \<and> select_candidates tzdb now prev ps = Inl x))"
  using assms
proof (induction sessionize tzdb now prev g l k ps s arbitrary: e sel s'
    rule: exec_for_query.induct)
  case (1 sessionize tzdb now prev g l k ps s)
  note eq = "1.prems"(1) [unfolded exec_for_query.simps [of sessionize tzdb now prev g l k ps s]]
  show ?case
  proof (cases "fetch tzdb now prev k ps")
    case (Inl x)
    with eq have "e = Some x" "sel = []" "s' = s" by simp_all
    moreover from Inl have "select_candidates tzdb now prev ps = Inl x" by (rule fetch_Inl)
    ultimately have "ps = [] @ ps \<and> select_candidates tzdb now prev [] = Inr sel
      \<and> for_loop sessionize tzdb now g l sel s = (None, s')
      \<and> (\<exists>x. e = Some x \<and> None = (None :: error option)
            \<and> select_candidates tzdb now prev ps = Inl x)" by simp
    then show ?thesis by blast
  next
    case (Inr y)
    obtain rs rest where y: "y = (rs, rest)" by (cases y)
    from Inr y fetch_Inr [of tzdb now prev k ps rs rest] obtain ps1 where
      ps: "ps = ps1 @ rest" and s1: "select_candidates tzdb now prev ps1 = Inr rs"
      and full: "length rs < k \<longrightarrow> rest = []" by auto
    show ?thesis
    proof (cases "rs = []")
      case True
      with eq Inr y have "e = None" "sel = []" "s' = s" by simp_all
      moreover from True full "1.prems"(2) have "rest = []" by simp
      ultimately have "ps = ps1 @ [] \<and> select_candidates tzdb now prev ps1 = Inr sel
        \<and> for_loop sessionize tzdb now g l sel s = (None, s')
        \<and> e = None \<and> None = (None :: error option) \<and> ([] :: profile list) = []"
        using ps s1 True by simp
      then show ?thesis by blast
    next
      case False
      obtain e1 s1' where f: "for_loop sessionize tzdb now g l rs s = (e1, s1')" by fastforce
      show ?thesis
      proof (cases e1)
        case (Some x)
        with eq Inr y False f have "e = Some x" "sel = rs" "s' = s1'" by simp_all
        with ps s1 f Some show ?thesis by blast
      next
        case None
        obtain e2 sel2 s2 where
          r: "exec_for_query sessionize tzdb now prev g l 50 rest s1' = (e2, sel2, s2)"
          by (metis prod_cases3)
        with eq Inr y False f None have res: "e = e2" "sel = rs @ sel2" "s' = s2" by simp_all
        from "1.IH" [OF Inr y [symmetric] False f [symmetric] None r]
        obtain r1 r2 e' where
          rest: "rest = r1 @ r2" and s2: "select_candidates tzdb now prev r1 = Inr sel2"
          and f2: "for_loop sessionize tzdb now g l sel2 s1' = (e', s2)"
          and out: "(e2 = None \<and> e' = None \<and> r2 = [])
            \<or> (\<exists>x. e2 = Some x \<and> e' = Some x)
            \<or> (\<exists>x. e2 = Some x \<and> e' = None \<and> select_candidates tzdb now prev rest = Inl x)"
          by auto
        have a: "ps = (ps1 @ r1) @ r2" using ps rest by simp
        have b: "select_candidates tzdb now prev (ps1 @ r1) = Inr sel"
          using s1 s2 res by (simp add: select_candidates_append)
        have c: "for_loop sessionize tzdb now g l sel s = (e', s')"
          using f None f2 res by (simp add: for_loop_append)
        have d: "select_candidates tzdb now prev ps = Inl x"
          if "select_candidates tzdb now prev rest = Inl x" for x
          using that ps s1 by (simp add: select_candidates_append)
        from out d res have "(e = None \<and> e' = None \<and> r2 = [])
            \<or> (\<exists>x. e = Some x \<and> e' = Some x)
            \<or> (\<exists>x. e = Some x \<and> e' = None \<and> select_candidates tzdb now prev ps = Inl x)"
          by auto
        with a b c show ?thesis by blast
      qed
    qed
  qed
qed

lemma tick_cases:
  obtains
    (completed) cs s where
      "select_candidates tzdb now (now - make_interval_mins w) profiles = Inr cs"
      "for_loop sessionize tzdb now g l cs
          \<lparr>user_midnight_runs = T, runs = 0, performed = [], claimed = []\<rparr> = (None, s)"
      "run_sessionize_for_users_crossing_midnight sessionize tzdb now profiles T g l w =
         \<lparr>returned = Inr (runs s), table_after = user_midnight_runs s,
          calls = performed s, claim_log = claimed s, selected = cs\<rparr>"
  | (raised) ps1 ps2 cs x s where
      "profiles = ps1 @ ps2"
      "select_candidates tzdb now (now - make_interval_mins w) ps1 = Inr cs"
      "for_loop sessionize tzdb now g l cs
          \<lparr>user_midnight_runs = T, runs = 0, performed = [], claimed = []\<rparr> = (Some x, s)"
      "run_sessionize_for_users_crossing_midnight sessionize tzdb now profiles T g l w =
         \<lparr>returned = Inl x, table_after = T, calls = performed s, claim_log = claimed s,
          selected = cs\<rparr>"
  | (query_failed) ps1 ps2 cs x s where
      "profiles = ps1 @ ps2"
      "select_candidates tzdb now (now - make_interval_mins w) ps1 = Inr cs"
      "for_loop sessionize tzdb now g l cs
          \<lparr>user_midnight_runs = T, runs = 0, performed = [], claimed = []\<rparr> = (None, s)"
      "select_candidates tzdb now (now - make_interval_mins w) profiles = Inl x"
      "run_sessionize_for_users_crossing_midnight sessionize tzdb now profiles T g l w =
         \<lparr>returned = Inl x, table_after = T, calls = performed s, claim_log = claimed s,
          selected = cs\<rparr>"
proof -
  let ?s0 = "\<lparr>user_midnight_runs = T, runs = 0, performed = [], claimed = []\<rparr>"
  let ?prev = "now - make_interval_mins w"
  obtain e sel s where
    r: "exec_for_query sessionize tzdb now ?prev g l 10 profiles ?s0 = (e, sel, s)"
    by (metis prod_cases3)
  then have res: "run_sessionize_for_users_crossing_midnight sessionize tzdb now profiles T g l w =
      (case e of
         Some x \<Rightarrow> \<lparr>returned = Inl x, table_after = T, calls = performed s,
                    claim_log = claimed s, selected = sel\<rparr>
       | None \<Rightarrow> \<lparr>returned = Inr (runs s), table_after = user_midnight_runs s,
                    calls = performed s, claim_log = claimed s, selected = sel\<rparr>)"
    by (cases e) (simp_all add: run_sessionize_for_users_crossing_midnight_def)
  from exec_for_query_run [OF r] obtain ps1 ps2 e' where
    ps: "profiles = ps1 @ ps2" and s1: "select_candidates tzdb now ?prev ps1 = Inr sel"
    and f: "for_loop sessionize tzdb now g l sel ?s0 = (e', s)"
    and out: "(e = None \<and> e' = None \<and> ps2 = [])
          \<or> (\<exists>x. e = Some x \<and> e' = Some x)
          \<or> (\<exists>x. e = Some x \<and> e' = None \<and> select_candidates tzdb now ?prev profiles = Inl x)"
    by auto
  from out consider
    (a) "e = None" "e' = None" "ps2 = []"
    | (b) x where "e = Some x" "e' = Some x"
    | (c) x where "e = Some x" "e' = None" "select_candidates tzdb now ?prev profiles = Inl x"
    by blast
  then show ?thesis
  proof cases
    case a
    with ps s1 f res show ?thesis by (intro completed [of sel s]) simp_all
  next
    case (b x)
    with f res show ?thesis by (intro raised [OF ps s1, of x s]) simp_all
  next
    case (c x)
    with f res show ?thesis by (intro query_failed [OF ps s1, of s x]) simp_all
  qed
qed

lemma tick_keeps_pk:
  assumes d: "distinct (map pk T)"
  shows "distinct (map pk (table_after (run_sessionize_for_users_crossing_midnight
            sessionize tzdb now profiles T g l w)))"
proof (cases rule: tick_cases [of tzdb now w profiles sessionize g l T])
  case (completed cs s)
  from for_loop_keeps_pk [OF completed(2)] d completed(3) show ?thesis by simp
next
  case (raised ps1 ps2 cs x s)
  with d show ?thesis by simp
next
  case (query_failed ps1 ps2 cs x s)
  with d show ?thesis by simp
qed

lemma tick_completed_facts:
  assumes r: "returned (run_sessionize_for_users_crossing_midnight sessionize tzdb now profiles T g l w) = Inr n"
  obtains cs N where
    "select_candidates tzdb now (now - make_interval_mins w) profiles = Inr cs"
    "selected (run_sessionize_for_users_crossing_midnight sessionize tzdb now profiles T g l w) = cs"
    "table_after (run_sessionize_for_users_crossing_midnight sessionize tzdb now profiles T g l w) = T @ N"
    "calls (run_sessionize_for_users_crossing_midnight sessionize tzdb now profiles T g l w) = map (\<lambda>r. (user_id r, g, l)) N"
    "n = int (length N)"
    "map fst (claim_log (run_sessionize_for_users_crossing_midnight sessionize tzdb now profiles T g l w)) = map fst cs"
    "map attempt_key (filter attempt_won (claim_log (run_sessionize_for_users_crossing_midnight sessionize tzdb now profiles T g l w)))
       = map pk N"
    "distinct (map pk N)"
    "set (map pk N) =
       set (map attempt_key (claim_log (run_sessionize_for_users_crossing_midnight sessionize tzdb now profiles T g l w))) - set (map pk T)"
    "\<forall>c\<in>set cs. \<exists>z. tzdb (snd c) = Some z \<and>
        (fst c, at_time_zone_date z now) \<in> set (map pk (T @ N))"
    "map attempt_key (claim_log (run_sessionize_for_users_crossing_midnight sessionize tzdb now profiles T g l w))
       = candidate_pairs tzdb now cs"
proof (cases rule: tick_cases [of tzdb now w profiles sessionize g l T])
  case (query_failed ps1 ps2 cs x s)
  with r show ?thesis by simp
next
  case (raised ps1 ps2 cs x s)
  with r show ?thesis by simp
next
  case (completed cs s)
  let ?res = "run_sessionize_for_users_crossing_midnight sessionize tzdb now profiles T g l w"
  from for_loop_completed [OF completed(2)] obtain N C where
    N: "user_midnight_runs s = T @ N" "claimed s = C"
    "performed s = map (\<lambda>r. (user_id r, g, l)) N"
    "runs s = int (length N)" "map fst C = map fst cs"
    "map attempt_key (filter attempt_won C) = map pk N" "distinct (map pk N)"
    "set (map pk N) = set (map attempt_key C) - set (map pk T)" by auto
  from N(1) for_loop_candidates_present [OF completed(2)]
  have p: "\<forall>c\<in>set cs. \<exists>z. tzdb (snd c) = Some z \<and>
        (fst c, at_time_zone_date z now) \<in> set (map pk (T @ N))" by simp
  from for_loop_completed_pairs [OF completed(2)]
  have q: "map attempt_key (claimed s) = candidate_pairs tzdb now cs" by simp
  have f: "returned ?res = Inr (runs s)" "table_after ?res = user_midnight_runs s"
    "calls ?res = performed s" "claim_log ?res = claimed s" "selected ?res = cs"
    by (simp_all add: completed(3))
  from r f(1) N(4) have n: "n = int (length N)" by simp
  show ?thesis
  proof (rule that [of cs N])
    show "select_candidates tzdb now (now - make_interval_mins w) profiles = Inr cs"
      by (rule completed(1))
    show "selected ?res = cs" by (rule f(5))
    show "table_after ?res = T @ N" using f(2) N(1) by simp
    show "calls ?res = map (\<lambda>r. (user_id r, g, l)) N" using f(3) N(3) by simp
    show "n = int (length N)" by (rule n)
    show "map fst (claim_log ?res) = map fst cs" using f(4) N(2,5) by simp
    show "map attempt_key (filter attempt_won (claim_log ?res)) = map pk N"
      using f(4) N(2,6) by simp
    show "distinct (map pk N)" by (rule N(7))
    show "set (map pk N) = set (map attempt_key (claim_log ?res)) - set (map pk T)"
      using f(4) N(2,8) by simp
    show "\<forall>c\<in>set cs. \<exists>z. tzdb (snd c) = Some z \<and>
        (fst c, at_time_zone_date z now) \<in> set (map pk (T @ N))" by (rule p)
    show "map attempt_key (claim_log ?res) = candidate_pairs tzdb now cs"
      using f(4) q by simp
  qed
qed

lemma tick_claim_dates:
  assumes "a \<in> set (claim_log (run_sessionize_for_users_crossing_midnight sessionize tzdb now profiles T g l w))"
  shows "\<exists>x\<in>set profiles. \<exists>tz z. profile_id x = fst a \<and> timezone x = Some tz \<and> tzdb tz = Some z
      \<and> fst (snd a) = at_time_zone_date z now
      \<and> fst (snd a) \<noteq> at_time_zone_date z (now - make_interval_mins w)"
proof -
  have main: ?thesis
    if ps: "profiles = ps1 @ ps2"
      and sel: "select_candidates tzdb now (now - make_interval_mins w) ps1 = Inr cs"
      and f: "for_loop sessionize tzdb now g l cs
          \<lparr>user_midnight_runs = T, runs = 0, performed = [], claimed = []\<rparr> = (e, s)"
      and a: "a \<in> set (claimed s)" for ps1 ps2 cs e s
  proof -
    from for_loop_claim_dates [OF f a] obtain tz z where
      c: "(fst a, tz) \<in> set cs" and z: "tzdb tz = Some z"
      and d: "fst (snd a) = at_time_zone_date z now" by auto
    from select_prefix_iff [OF sel c, of ps2] ps
    obtain x where x: "x \<in> set profiles" "profile_id x = fst a" "timezone x = Some tz"
      and dc: "date_changed tzdb tz now (now - make_interval_mins w) = Inr True" by auto
    from dc z have "at_time_zone_date z now \<noteq> at_time_zone_date z (now - make_interval_mins w)"
      by (simp add: date_changed_True_iff)
    with x z d show ?thesis by auto
  qed
  show ?thesis
  proof (cases rule: tick_cases [of tzdb now w profiles sessionize g l T])
    case (completed cs s)
    with assms main [of profiles "[]" cs None s] show ?thesis by simp
  next
    case (raised ps1 ps2 cs x s)
    with assms main [OF raised(1,2,3)] show ?thesis by simp
  next
    case (query_failed ps1 ps2 cs x s)
    with assms main [OF query_failed(1,2,3)] show ?thesis by simp
  qed
qed

lemma tick_new_rows:
  assumes "row \<in> set (table_after (run_sessionize_for_users_crossing_midnight sessionize tzdb now profiles T g l w))" "row \<notin> set T"
  shows "(user_id row, local_date row, True) \<in> set (claim_log (run_sessionize_for_users_crossing_midnight sessionize tzdb now profiles T g l w))"
proof (cases rule: tick_cases [of tzdb now w profiles sessionize g l T])
  case (query_failed ps1 ps2 cs x s)
  with assms show ?thesis by simp
next
  case (raised ps1 ps2 cs x s)
  with assms show ?thesis by simp
next
  case (completed cs s)
  with assms for_loop_new_rows [OF completed(2), of row] show ?thesis by simp
qed

lemma tick_calls_are_won_claims:
  "calls (run_sessionize_for_users_crossing_midnight sessionize tzdb now profiles T g l w) =
   map (\<lambda>a. (fst a, g, l))
     (filter attempt_won (claim_log (run_sessionize_for_users_crossing_midnight sessionize tzdb now profiles T g l w)))"
proof (cases rule: tick_cases [of tzdb now w profiles sessionize g l T])
  case (query_failed ps1 ps2 cs x s)
  with for_loop_calls_inv [OF query_failed(3)] show ?thesis by simp
next
  case (raised ps1 ps2 cs x s)
  with for_loop_calls_inv [OF raised(3)] show ?thesis by simp
next
  case (completed cs s)
  with for_loop_calls_inv [OF completed(2)] show ?thesis by simp
qed

lemma tick_won_was_absent:
  assumes "(u, d, True) \<in> set (claim_log (run_sessionize_for_users_crossing_midnight sessionize tzdb now profiles T g l w))"
  shows "(u, d) \<notin> set (map pk T)"
proof (cases rule: tick_cases [of tzdb now w profiles sessionize g l T])
  case (query_failed ps1 ps2 cs x s)
  with assms for_loop_won_was_absent [OF query_failed(3), of u d] show ?thesis by simp
next
  case (raised ps1 ps2 cs x s)
  with assms for_loop_won_was_absent [OF raised(3), of u d] show ?thesis by simp
next
  case (completed cs s)
  with assms for_loop_won_was_absent [OF completed(2), of u d] show ?thesis by simp
qed

lemma tick_call_needs_new_pair:
  assumes "c \<in> set (calls (run_sessionize_for_users_crossing_midnight sessionize tzdb now profiles T g l w))"
  shows "\<exists>d. (fst c, d, True) \<in> set (claim_log (run_sessionize_for_users_crossing_midnight sessionize tzdb now profiles T g l w))
           \<and> (fst c, d) \<notin> set (map pk T)"
proof -
  from assms tick_calls_are_won_claims [of sessionize tzdb now profiles T g l w]
  obtain a where a: "a \<in> set (claim_log (run_sessionize_for_users_crossing_midnight sessionize tzdb now profiles T g l w))"
    "attempt_won a" "c = (fst a, g, l)" by auto
  from a(2,3) have "(fst c, fst (snd a), True) = a"
    by (simp add: attempt_won_def prod_eq_iff)
  with a(1) tick_won_was_absent [of "fst c" "fst (snd a)" sessionize tzdb now profiles T g l w]
  show ?thesis by metis
qed

lemma tick_selected:
  "\<exists>post. rows_passing_where tzdb now (now - make_interval_mins w) profiles =
      selected (run_sessionize_for_users_crossing_midnight sessionize tzdb now profiles T g l w) @ post"
proof (cases rule: tick_cases [of tzdb now w profiles sessionize g l T])
  case (completed cs s)
  with select_is_passing [OF completed(1)] show ?thesis by simp
next
  case (raised ps1 ps2 cs x s)
  with select_prefix_passing [OF raised(2), of ps2] show ?thesis by simp
next
  case (query_failed ps1 ps2 cs x s)
  with select_prefix_passing [OF query_failed(2), of ps2] show ?thesis by simp
qed

lemma tick_raises_failure:
  assumes "(u, d, True) \<in> set (claim_log (run_sessionize_for_users_crossing_midnight sessionize tzdb now profiles T g l w))"
    and "sessionize u g l = Inl x"
  shows "returned (run_sessionize_for_users_crossing_midnight sessionize tzdb now profiles T g l w) = Inl x"
proof (cases rule: tick_cases [of tzdb now w profiles sessionize g l T])
  case (completed cs s)
  from assms(1) completed(3) have m: "(u, d, True) \<in> set (claimed s)" by simp
  from for_loop_failure [OF completed(2) m _ assms(2)] show ?thesis by simp
next
  case (raised ps1 ps2 cs y s)
  from assms(1) raised(4) have m: "(u, d, True) \<in> set (claimed s)" by simp
  from for_loop_failure [OF raised(3) m _ assms(2)] have "y = x" by simp
  then show ?thesis using raised(4) by simp
next
  case (query_failed ps1 ps2 cs y s)
  from assms(1) query_failed(5) have m: "(u, d, True) \<in> set (claimed s)" by simp
  from for_loop_failure [OF query_failed(3) m _ assms(2)] show ?thesis by simp
qed

lemma last_won_call:
  assumes "claim_log R = C @ [(u, d, True)]"
    and "calls R = map (\<lambda>a. (fst a, g, l)) (filter attempt_won (claim_log R))"
  shows "last (claim_log R) = (u, d, True) \<and> last (calls R) = (u, g, l)"
  using assms by (simp add: attempt_won_def)

section \<open>Concrete calls\<close>



lemma date_line_dates:
  "at_time_zone_date date_line_zone (utc_instant 0 12 10) = 0"
  "at_time_zone_date date_line_zone (utc_instant 0 12 10 - make_interval_mins 30) = 1"
  by (simp_all add: at_time_zone_date_def date_line_zone_def utc_instant_def make_interval_mins_def)

lemma tick_one_failing:
  "run_sessionize_for_users_crossing_midnight sessionize_fails_for_1 zones (utc_instant 0 5 5)
      [\<lparr>profile_id = 1, timezone = Some ''America/Bogota''\<rparr>] T0 10 24 30
   = \<lparr>returned = Inl (Raised ''sessionize failed''), table_after = T0,
      calls = [(1, 10, 24)], claim_log = [(1, 0, True)], selected = [(1, ''America/Bogota'')]\<rparr>"
  if "T0 = [] \<or> T0 = [\<lparr>user_id = 7, local_date = - 1, ran_at = 0\<rparr>]"
  using that
  by (auto simp: run_sessionize_for_users_crossing_midnight_def exec_for_query.simps
      where_row_def date_changed_def local_date_of_def zones_def at_time_zone_date_def
      utc_minus_5_def date_line_zone_def utc_instant_def make_interval_mins_def loop_body_def
      claim_def insert_on_conflict_do_nothing_def sessionize_fails_for_1_def sessionize_ok_def
      pk_def)

lemma tick_two_first_failing:
  "(run_sessionize_for_users_crossing_midnight sessionize_fails_for_1 zones (utc_instant 0 5 5)
        [\<lparr>profile_id = 1, timezone = Some ''America/Bogota''\<rparr>,
         \<lparr>profile_id = 2, timezone = Some ''America/Bogota''\<rparr>]
        [] 10 24 30) = \<lparr>returned = Inl (Raised ''sessionize failed''), table_after = [],
      calls = [(1, 10, 24)], claim_log = [(1, 0, True)],
      selected = [(1, ''America/Bogota''), (2, ''America/Bogota'')]\<rparr>"
  by (simp add: run_sessionize_for_users_crossing_midnight_def exec_for_query.simps
      where_row_def date_changed_def local_date_of_def zones_def at_time_zone_date_def
      utc_minus_5_def date_line_zone_def utc_instant_def make_interval_mins_def loop_body_def
      claim_def insert_on_conflict_do_nothing_def sessionize_fails_for_1_def sessionize_ok_def
      pk_def)

lemma passing_two:
  "rows_passing_where zones (utc_instant 0 5 5) (utc_instant 0 5 5 - make_interval_mins 30) [\<lparr>profile_id = 1, timezone = Some ''America/Bogota''\<rparr>,
         \<lparr>profile_id = 2, timezone = Some ''America/Bogota''\<rparr>] = [(1, ''America/Bogota''), (2, ''America/Bogota'')]"
  by (simp add: run_sessionize_for_users_crossing_midnight_def exec_for_query.simps
      where_row_def date_changed_def local_date_of_def zones_def at_time_zone_date_def
      utc_minus_5_def date_line_zone_def utc_instant_def make_interval_mins_def loop_body_def
      claim_def insert_on_conflict_do_nothing_def sessionize_fails_for_1_def sessionize_ok_def
      pk_def)

lemma tick_two_ok:
  "(run_sessionize_for_users_crossing_midnight sessionize_ok zones (utc_instant 0 5 5)
        [\<lparr>profile_id = 1, timezone = Some ''America/Bogota''\<rparr>,
         \<lparr>profile_id = 2, timezone = Some ''America/Bogota''\<rparr>]
        [] 10 24 30) = \<lparr>returned = Inr 2,
      table_after = [\<lparr>user_id = 1, local_date = 0, ran_at = utc_instant 0 5 5\<rparr>,
                     \<lparr>user_id = 2, local_date = 0, ran_at = utc_instant 0 5 5\<rparr>],
      calls = [(1, 10, 24), (2, 10, 24)], claim_log = [(1, 0, True), (2, 0, True)],
      selected = [(1, ''America/Bogota''), (2, ''America/Bogota'')]\<rparr>"
  by (simp add: run_sessionize_for_users_crossing_midnight_def exec_for_query.simps
      where_row_def date_changed_def local_date_of_def zones_def at_time_zone_date_def
      utc_minus_5_def date_line_zone_def utc_instant_def make_interval_mins_def loop_body_def
      claim_def insert_on_conflict_do_nothing_def sessionize_fails_for_1_def sessionize_ok_def
      pk_def)

lemma tick_second_failing:
  "(run_sessionize_for_users_crossing_midnight sessionize_fails_for_1 zones (utc_instant 0 5 5)
        [\<lparr>profile_id = 2, timezone = Some ''America/Bogota''\<rparr>,
         \<lparr>profile_id = 1, timezone = Some ''America/Bogota''\<rparr>]
        [] 10 24 30) = \<lparr>returned = Inl (Raised ''sessionize failed''), table_after = [],
      calls = [(2, 10, 24), (1, 10, 24)], claim_log = [(2, 0, True), (1, 0, True)],
      selected = [(2, ''America/Bogota''), (1, ''America/Bogota'')]\<rparr>"
  by (simp add: run_sessionize_for_users_crossing_midnight_def exec_for_query.simps
      where_row_def date_changed_def local_date_of_def zones_def at_time_zone_date_def
      utc_minus_5_def date_line_zone_def utc_instant_def make_interval_mins_def loop_body_def
      claim_def insert_on_conflict_do_nothing_def sessionize_fails_for_1_def sessionize_ok_def
      pk_def)

lemma tick_unknown_zone:
  "(run_sessionize_for_users_crossing_midnight sessionize_ok zones (utc_instant 0 5 5)
        [\<lparr>profile_id = 1, timezone = Some ''America/Bogota''\<rparr>,
         \<lparr>profile_id = 2, timezone = Some ''Nowhere''\<rparr>]
        [] 10 24 30) = \<lparr>returned = Inl (Time_Zone_Not_Recognized ''Nowhere''), table_after = [],
      calls = [], claim_log = [], selected = []\<rparr>"
  by (simp add: run_sessionize_for_users_crossing_midnight_def exec_for_query.simps
      where_row_def date_changed_def local_date_of_def zones_def at_time_zone_date_def
      utc_minus_5_def date_line_zone_def utc_instant_def make_interval_mins_def loop_body_def
      claim_def insert_on_conflict_do_nothing_def sessionize_fails_for_1_def sessionize_ok_def
      pk_def)

lemma tick_ten_then_unknown_failing:
  "(run_sessionize_for_users_crossing_midnight sessionize_fails_for_1 zones (utc_instant 0 5 5)
        ten_then_unknown
        [] 10 24 30) = \<lparr>returned = Inl (Raised ''sessionize failed''), table_after = [],
      calls = [(1, 10, 24)], claim_log = [(1, 0, True)],
      selected = [(1, ''America/Bogota''), (2, ''America/Bogota''), (3, ''America/Bogota''), (4, ''America/Bogota''), (5, ''America/Bogota''),
                  (6, ''America/Bogota''), (7, ''America/Bogota''), (8, ''America/Bogota''), (9, ''America/Bogota''), (10, ''America/Bogota'')]\<rparr>"
  by (simp add: ten_then_unknown_def run_sessionize_for_users_crossing_midnight_def exec_for_query.simps
      where_row_def date_changed_def local_date_of_def zones_def at_time_zone_date_def
      utc_minus_5_def date_line_zone_def utc_instant_def make_interval_mins_def loop_body_def
      claim_def insert_on_conflict_do_nothing_def sessionize_fails_for_1_def sessionize_ok_def
      pk_def)

lemma tick_ten_then_unknown_ok:
  "(run_sessionize_for_users_crossing_midnight sessionize_ok zones (utc_instant 0 5 5)
        ten_then_unknown
        [] 10 24 30) = \<lparr>returned = Inl (Time_Zone_Not_Recognized ''Nowhere''), table_after = [],
      calls = [(1, 10, 24), (2, 10, 24), (3, 10, 24), (4, 10, 24), (5, 10, 24),
               (6, 10, 24), (7, 10, 24), (8, 10, 24), (9, 10, 24), (10, 10, 24)],
      claim_log = [(1, 0, True), (2, 0, True), (3, 0, True), (4, 0, True), (5, 0, True),
                   (6, 0, True), (7, 0, True), (8, 0, True), (9, 0, True), (10, 0, True)],
      selected = [(1, ''America/Bogota''), (2, ''America/Bogota''), (3, ''America/Bogota''), (4, ''America/Bogota''), (5, ''America/Bogota''),
                  (6, ''America/Bogota''), (7, ''America/Bogota''), (8, ''America/Bogota''), (9, ''America/Bogota''), (10, ''America/Bogota'')]\<rparr>"
  by (simp add: ten_then_unknown_def run_sessionize_for_users_crossing_midnight_def exec_for_query.simps
      where_row_def date_changed_def local_date_of_def zones_def at_time_zone_date_def
      utc_minus_5_def date_line_zone_def utc_instant_def make_interval_mins_def loop_body_def
      claim_def insert_on_conflict_do_nothing_def sessionize_fails_for_1_def sessionize_ok_def
      pk_def)

lemma tick_date_line:
  "(run_sessionize_for_users_crossing_midnight sessionize_ok zones (utc_instant 0 12 10)
        [\<lparr>profile_id = 3, timezone = Some ''Date/Line''\<rparr>]
        [] 10 24 30) = \<lparr>returned = Inr 1,
      table_after = [\<lparr>user_id = 3, local_date = 0, ran_at = utc_instant 0 12 10\<rparr>],
      calls = [(3, 10, 24)], claim_log = [(3, 0, True)], selected = [(3, ''Date/Line'')]\<rparr>"
  by (simp add: run_sessionize_for_users_crossing_midnight_def exec_for_query.simps
      where_row_def date_changed_def local_date_of_def zones_def at_time_zone_date_def
      utc_minus_5_def date_line_zone_def utc_instant_def make_interval_mins_def loop_body_def
      claim_def insert_on_conflict_do_nothing_def sessionize_fails_for_1_def sessionize_ok_def
      pk_def)

section \<open>The primary key\<close>

text \<open>
  C4. Every reachable table holds at most one row per \<open>(user_id, local_date)\<close>.
  The conflict-checked insert keeps this for any row whatever, with no help from
  the code around it, and so do the claim, a call of the scheduler function and
  the retention sweep.
\<close>

theorem at_most_one_row_per_pair:
  "(reachable T \<longrightarrow> distinct (map pk T))
   \<and> (distinct (map pk T) \<longrightarrow>
        distinct (map pk (snd (insert_on_conflict_do_nothing row T)))
      \<and> distinct (map pk (snd (claim u d now T)))
      \<and> distinct (map pk (table_after (run_sessionize_for_users_crossing_midnight
            sessionize tzdb now profiles T g l w)))
      \<and> distinct (map pk (snd (purge_older_than h T))))"
proof -
  have "reachable T \<Longrightarrow> distinct (map pk T)"
    by (induction rule: reachable.induct)
      (simp_all add: claim_keeps_pk tick_keeps_pk purge_keeps_pk)
  then show ?thesis
    by (simp add: insert_keeps_pk claim_keeps_pk tick_keeps_pk purge_keeps_pk)
qed

theorem at_most_one_row_per_pair_witness:
  "reachable (snd (claim 1 0 5 (snd (claim 1 0 5 []))))
   \<and> distinct (map pk (snd (claim 1 0 5 (snd (claim 1 0 5 [])))))
   \<and> distinct (map pk [\<lparr>user_id = 1, local_date = 0, ran_at = 5\<rparr>])
   \<and> distinct (map pk (snd (insert_on_conflict_do_nothing
        \<lparr>user_id = 1, local_date = 0, ran_at = 9\<rparr> [\<lparr>user_id = 1, local_date = 0, ran_at = 5\<rparr>])))"
proof -
  have r: "reachable (snd (claim 1 0 5 (snd (claim 1 0 5 []))))"
    by (intro reachable.intros)
  have d: "distinct (map pk [\<lparr>user_id = 1, local_date = 0, ran_at = 5\<rparr>])"
    by simp
  from r d
    at_most_one_row_per_pair [of "snd (claim 1 0 5 (snd (claim 1 0 5 [])))"]
    at_most_one_row_per_pair [of "[\<lparr>user_id = 1, local_date = 0, ran_at = 5\<rparr>]"
      "\<lparr>user_id = 1, local_date = 0, ran_at = 9\<rparr>"]
  show ?thesis by simp
qed

section \<open>The crossing test and the rows selected\<close>

text \<open>
  C5, as amended. For every \<open>now\<close>, window and zone name, the test is true
  exactly when the local date at \<open>now\<close> and the local date at \<open>now\<close> minus the
  window both exist (the zone name is known) and differ, each local date being
  taken with the offset the zone has at its own instant. Every row the cursor of
  a call returns is a profile with a time zone for which the test is true; and
  when the call returns its count, the rows returned are exactly the profiles with
  a time zone for which the test is true. A call that raises may have selected
  only some of them, or none.
\<close>

theorem detector_iff_local_dates_differ:
  "((date_changed tzdb tz v_now (v_now - make_interval_mins w) = Inr True) =
      (\<exists>d1 d0. local_date_of tzdb tz v_now = Inr d1
         \<and> local_date_of tzdb tz (v_now - w * 60000000) = Inr d0 \<and> d1 \<noteq> d0))
   \<and> (tzdb tz = Some z \<longrightarrow>
        local_date_of tzdb tz t = Inr ((t + z t * 1000000) div 86400000000))
   \<and> ((u, tz) \<in> set (selected (run_sessionize_for_users_crossing_midnight sessionize tzdb v_now profiles T g l w)) \<longrightarrow>
        (\<exists>x\<in>set profiles. profile_id x = u \<and> timezone x = Some tz)
        \<and> date_changed tzdb tz v_now (v_now - make_interval_mins w) = Inr True)
   \<and> (returned (run_sessionize_for_users_crossing_midnight sessionize tzdb v_now profiles T g l w) = Inr n \<longrightarrow>
        ((u, tz) \<in> set (selected (run_sessionize_for_users_crossing_midnight sessionize tzdb v_now profiles T g l w))) =
        ((\<exists>x\<in>set profiles. profile_id x = u \<and> timezone x = Some tz)
         \<and> date_changed tzdb tz v_now (v_now - make_interval_mins w) = Inr True))"
proof -
  let ?R = "run_sessionize_for_users_crossing_midnight sessionize tzdb v_now profiles T g l w"
  let ?prev = "v_now - make_interval_mins w"
  have a: "(date_changed tzdb tz v_now ?prev = Inr True) =
     (\<exists>d1 d0. local_date_of tzdb tz v_now = Inr d1
        \<and> local_date_of tzdb tz (v_now - w * 60000000) = Inr d0 \<and> d1 \<noteq> d0)"
    by (auto simp: date_changed_def make_interval_mins_def split: sum.splits)
  have b: "tzdb tz = Some z \<Longrightarrow>
     local_date_of tzdb tz t = Inr ((t + z t * 1000000) div 86400000000)"
    by (simp add: local_date_of_def at_time_zone_date_def)
  have c: "(\<exists>x\<in>set profiles. profile_id x = u \<and> timezone x = Some tz)
        \<and> date_changed tzdb tz v_now ?prev = Inr True"
    if m: "(u, tz) \<in> set (selected ?R)"
  proof -
    from tick_selected [of tzdb v_now w profiles sessionize T g l] m
    have "(u, tz) \<in> set (rows_passing_where tzdb v_now ?prev profiles)" by auto
    then show ?thesis by (simp add: rows_passing_where_iff)
  qed
  have d: "((u, tz) \<in> set (selected ?R)) =
        ((\<exists>x\<in>set profiles. profile_id x = u \<and> timezone x = Some tz)
         \<and> date_changed tzdb tz v_now ?prev = Inr True)"
    if r: "returned ?R = Inr n"
  proof -
    from r obtain cs where "select_candidates tzdb v_now ?prev profiles = Inr cs"
      "selected ?R = cs" by (rule tick_completed_facts)
    with select_candidates_iff [of tzdb v_now ?prev profiles cs u tz] show ?thesis by simp
  qed
  from a b c d show ?thesis by blast
qed

theorem detector_iff_local_dates_differ_witness:
  "zones ''America/Bogota'' = Some utc_minus_5
   \<and> local_date_of zones ''America/Bogota'' (utc_instant 0 5 5) = Inr 0
   \<and> local_date_of zones ''America/Bogota'' (utc_instant 0 5 5 - 30 * 60000000) = Inr (- 1)
   \<and> date_changed zones ''America/Bogota'' (utc_instant 0 5 5) (utc_instant 0 5 5 - make_interval_mins 30) = Inr True
   \<and> (1, ''America/Bogota'') \<in> set (selected (run_sessionize_for_users_crossing_midnight sessionize_ok zones (utc_instant 0 5 5)
        ten_then_unknown
        [] 10 24 30))
   \<and> returned (run_sessionize_for_users_crossing_midnight sessionize_ok zones (utc_instant 0 5 5)
        [\<lparr>profile_id = 1, timezone = Some ''America/Bogota''\<rparr>,
         \<lparr>profile_id = 2, timezone = Some ''America/Bogota''\<rparr>]
        [] 10 24 30) = Inr 2
   \<and> (2, ''America/Bogota'') \<in> set (selected (run_sessionize_for_users_crossing_midnight sessionize_ok zones (utc_instant 0 5 5)
        [\<lparr>profile_id = 1, timezone = Some ''America/Bogota''\<rparr>,
         \<lparr>profile_id = 2, timezone = Some ''America/Bogota''\<rparr>]
        [] 10 24 30))"
proof -
  have h1: "(1, ''America/Bogota'') \<in> set (selected (run_sessionize_for_users_crossing_midnight sessionize_ok zones (utc_instant 0 5 5)
        ten_then_unknown
        [] 10 24 30))"
    by (simp add: tick_ten_then_unknown_ok)
  have h2: "returned (run_sessionize_for_users_crossing_midnight sessionize_ok zones (utc_instant 0 5 5)
        [\<lparr>profile_id = 1, timezone = Some ''America/Bogota''\<rparr>,
         \<lparr>profile_id = 2, timezone = Some ''America/Bogota''\<rparr>]
        [] 10 24 30) = Inr 2"
    by (simp add: tick_two_ok)
  from h1 zones_Bogota
    detector_iff_local_dates_differ [where tzdb = zones and tz = "''America/Bogota''"
      and v_now = "utc_instant 0 5 5" and w = 30 and z = utc_minus_5 and t = "utc_instant 0 5 5"
      and u = 1 and sessionize = sessionize_ok and profiles = ten_then_unknown and T = "[]"
      and g = 10 and l = 24]
  have a: "date_changed zones ''America/Bogota'' (utc_instant 0 5 5) (utc_instant 0 5 5 - make_interval_mins 30) = Inr True
      \<and> local_date_of zones ''America/Bogota'' (utc_instant 0 5 5)
          = Inr ((utc_instant 0 5 5 + utc_minus_5 (utc_instant 0 5 5) * 1000000) div 86400000000)"
    by blast
  from zones_Bogota
    detector_iff_local_dates_differ [where tzdb = zones and tz = "''America/Bogota''"
      and z = utc_minus_5 and t = "utc_instant 0 5 5 - 30 * 60000000"]
  have b: "local_date_of zones ''America/Bogota'' (utc_instant 0 5 5 - 30 * 60000000)
      = Inr ((utc_instant 0 5 5 - 30 * 60000000
              + utc_minus_5 (utc_instant 0 5 5 - 30 * 60000000) * 1000000) div 86400000000)"
    by blast
  have c: "(2, ''America/Bogota'') \<in> set (selected (run_sessionize_for_users_crossing_midnight sessionize_ok zones (utc_instant 0 5 5)
        [\<lparr>profile_id = 1, timezone = Some ''America/Bogota''\<rparr>,
         \<lparr>profile_id = 2, timezone = Some ''America/Bogota''\<rparr>]
        [] 10 24 30))"
    by (simp add: tick_two_ok)
  from a have a1: "date_changed zones ''America/Bogota'' (utc_instant 0 5 5) (utc_instant 0 5 5 - make_interval_mins 30) = Inr True" by blast
  from a have a2: "local_date_of zones ''America/Bogota'' (utc_instant 0 5 5) = Inr 0"
    by (simp add: utc_minus_5_def utc_instant_def)
  from b have b1: "local_date_of zones ''America/Bogota'' (utc_instant 0 5 5 - 30 * 60000000) = Inr (- 1)"
    by (simp add: utc_minus_5_def utc_instant_def)
  from a1 a2 b1 c h1 h2 zones_Bogota show ?thesis by blast
qed

text \<open>
  The claim as first stated fails: at 05:05 UTC the local date of entity 1 in
  the UTC-5 zone differs from its date thirty minutes earlier, but the next row of
  \<^verbatim>\<open>profiles\<close> has a zone name the database does not know; the first fetch
  raises on it, and entity 1 is not selected.
\<close>

theorem selected_exactly_when_counterexample:
  "date_changed zones ''America/Bogota'' (utc_instant 0 5 5) (utc_instant 0 5 5 - make_interval_mins 30) = Inr True
   \<and> \<lparr>profile_id = 1, timezone = Some ''America/Bogota''\<rparr> \<in> set [\<lparr>profile_id = 1, timezone = Some ''America/Bogota''\<rparr>,
         \<lparr>profile_id = 2, timezone = Some ''Nowhere''\<rparr>]
   \<and> (1, ''America/Bogota'') \<notin> set (selected (run_sessionize_for_users_crossing_midnight sessionize_ok zones (utc_instant 0 5 5)
        [\<lparr>profile_id = 1, timezone = Some ''America/Bogota''\<rparr>,
         \<lparr>profile_id = 2, timezone = Some ''Nowhere''\<rparr>]
        [] 10 24 30))
   \<and> returned (run_sessionize_for_users_crossing_midnight sessionize_ok zones (utc_instant 0 5 5)
        [\<lparr>profile_id = 1, timezone = Some ''America/Bogota''\<rparr>,
         \<lparr>profile_id = 2, timezone = Some ''Nowhere''\<rparr>]
        [] 10 24 30) = Inl (Time_Zone_Not_Recognized ''Nowhere'')"
proof -
  have a: "date_changed zones ''America/Bogota'' (utc_instant 0 5 5) (utc_instant 0 5 5 - make_interval_mins 30) = Inr True"
    by (simp add: date_changed_def local_date_of_def zones_Bogota
        at_time_zone_date_def utc_minus_5_def utc_instant_def make_interval_mins_def)
  have b: "(1, ''America/Bogota'') \<notin> set (selected (run_sessionize_for_users_crossing_midnight sessionize_ok zones (utc_instant 0 5 5)
        [\<lparr>profile_id = 1, timezone = Some ''America/Bogota''\<rparr>,
         \<lparr>profile_id = 2, timezone = Some ''Nowhere''\<rparr>]
        [] 10 24 30))
      \<and> returned (run_sessionize_for_users_crossing_midnight sessionize_ok zones (utc_instant 0 5 5)
        [\<lparr>profile_id = 1, timezone = Some ''America/Bogota''\<rparr>,
         \<lparr>profile_id = 2, timezone = Some ''Nowhere''\<rparr>]
        [] 10 24 30) = Inl (Time_Zone_Not_Recognized ''Nowhere'')"
    by (simp add: tick_unknown_zone)
  from a b show ?thesis by simp
qed

section \<open>Failure of the downstream processor\<close>

text \<open>
  C1, as amended. When the downstream call fails for an entity whose claim had
  just inserted its row, the function raises that error and the claim is undone
  with the rest of the statement: the table after the call is the table before it,
  and the entity's pair is not in it.
\<close>

theorem failed_downstream_call_undoes_claim:
  assumes "(u, d, True) \<in> set (claim_log (run_sessionize_for_users_crossing_midnight sessionize tzdb now profiles T g l w))"
    and "sessionize u g l = Inl x"
  shows "returned (run_sessionize_for_users_crossing_midnight sessionize tzdb now profiles T g l w) = Inl x
    \<and> table_after (run_sessionize_for_users_crossing_midnight sessionize tzdb now profiles T g l w) = T
    \<and> (u, d) \<notin> set (map pk (table_after (run_sessionize_for_users_crossing_midnight sessionize tzdb now profiles T g l w)))"
proof (cases rule: tick_cases [of tzdb now w profiles sessionize g l T])
  case (completed cs s)
  from assms(1) completed(3) have m: "(u, d, True) \<in> set (claimed s)" by simp
  from for_loop_failure [OF completed(2) m _ assms(2)] show ?thesis by simp
next
  case (raised ps1 ps2 cs y s)
  from assms(1) raised(4) have m: "(u, d, True) \<in> set (claimed s)" by simp
  from for_loop_failure [OF raised(3) m _ assms(2)] have "y = x" by simp
  moreover from for_loop_won_was_absent [OF raised(3) m] have "(u, d) \<notin> set (map pk T)" by simp
  ultimately show ?thesis using raised(4) by simp
next
  case (query_failed ps1 ps2 cs y s)
  from assms(1) query_failed(5) have m: "(u, d, True) \<in> set (claimed s)" by simp
  from for_loop_failure [OF query_failed(3) m _ assms(2)] show ?thesis by simp
qed

theorem failed_downstream_call_undoes_claim_witness:
  "(1, 0, True) \<in> set (claim_log (run_sessionize_for_users_crossing_midnight sessionize_fails_for_1 zones (utc_instant 0 5 5)
        ten_then_unknown
        [] 10 24 30))
   \<and> sessionize_fails_for_1 1 10 24 = Inl (Raised ''sessionize failed'')
   \<and> returned (run_sessionize_for_users_crossing_midnight sessionize_fails_for_1 zones (utc_instant 0 5 5)
        ten_then_unknown
        [] 10 24 30) = Inl (Raised ''sessionize failed'')
   \<and> table_after (run_sessionize_for_users_crossing_midnight sessionize_fails_for_1 zones (utc_instant 0 5 5)
        ten_then_unknown
        [] 10 24 30) = []
   \<and> (1, 0) \<notin> set (map pk (table_after (run_sessionize_for_users_crossing_midnight sessionize_fails_for_1 zones (utc_instant 0 5 5)
        ten_then_unknown
        [] 10 24 30)))"
proof -
  have h1: "(1, 0, True) \<in> set (claim_log (run_sessionize_for_users_crossing_midnight sessionize_fails_for_1 zones (utc_instant 0 5 5)
        ten_then_unknown
        [] 10 24 30))"
    by (simp add: tick_ten_then_unknown_failing)
  have h2: "sessionize_fails_for_1 1 10 24 = Inl (Raised ''sessionize failed'')"
    by (simp add: sessionize_fails_for_1_def)
  from failed_downstream_call_undoes_claim [OF h1 h2] h1 h2 show ?thesis
    by simp
qed

text \<open>
  The claim as first stated fails: entity 1 wins the claim of \<open>(1, 0)\<close>, its
  downstream call raises, and the pair is not in the table once the call has ended.
\<close>

theorem claim_kept_after_failure_counterexample:
  "(1, 0, True) \<in> set (claim_log (run_sessionize_for_users_crossing_midnight sessionize_fails_for_1 zones (utc_instant 0 5 5)
        [\<lparr>profile_id = 1, timezone = Some ''America/Bogota''\<rparr>]
        [] 10 24 30))
   \<and> sessionize_fails_for_1 1 10 24 = Inl (Raised ''sessionize failed'')
   \<and> (1, 0) \<notin> set (map pk (table_after (run_sessionize_for_users_crossing_midnight sessionize_fails_for_1 zones (utc_instant 0 5 5)
        [\<lparr>profile_id = 1, timezone = Some ''America/Bogota''\<rparr>]
        [] 10 24 30)))"
  by (simp add: tick_one_failing sessionize_fails_for_1_def)

text \<open>
  C2, as amended. A downstream failure for an entity whose claim was won ends the
  call: that error is raised in place of a count, and that entity's claim and
  downstream call are the last ones made, the claims attempted being those of an
  initial part of the candidates whose date changed, so that no candidate after
  the entity is processed. A call that returns a count has attempted the claim of
  every candidate whose date changed, in order, and has made the downstream call
  exactly for the winning claims, each of which returned. A call raises only the
  error of a downstream call made for a won claim, or that of a time zone name the
  database does not know.
\<close>

theorem downstream_failure_aborts_tick:
  "((u, d, True) \<in> set (claim_log (run_sessionize_for_users_crossing_midnight sessionize tzdb now profiles T g l w))
      \<and> sessionize u g l = Inl x \<longrightarrow>
        returned (run_sessionize_for_users_crossing_midnight sessionize tzdb now profiles T g l w) = Inl x
        \<and> last (claim_log (run_sessionize_for_users_crossing_midnight sessionize tzdb now profiles T g l w)) = (u, d, True)
        \<and> last (calls (run_sessionize_for_users_crossing_midnight sessionize tzdb now profiles T g l w)) = (u, g, l)
        \<and> (\<exists>post. map fst (rows_passing_where tzdb now (now - make_interval_mins w) profiles)
              = map fst (claim_log (run_sessionize_for_users_crossing_midnight sessionize tzdb now profiles T g l w)) @ post))
   \<and> (returned (run_sessionize_for_users_crossing_midnight sessionize tzdb now profiles T g l w) = Inr n \<longrightarrow>
        map fst (claim_log (run_sessionize_for_users_crossing_midnight sessionize tzdb now profiles T g l w))
          = map fst (rows_passing_where tzdb now (now - make_interval_mins w) profiles)
        \<and> calls (run_sessionize_for_users_crossing_midnight sessionize tzdb now profiles T g l w) =
            map (\<lambda>a. (fst a, g, l))
              (filter attempt_won (claim_log (run_sessionize_for_users_crossing_midnight sessionize tzdb now profiles T g l w)))
        \<and> (\<forall>c\<in>set (calls (run_sessionize_for_users_crossing_midnight sessionize tzdb now profiles T g l w)).
              \<exists>m. sessionize (fst c) g l = Inr m))
   \<and> (returned (run_sessionize_for_users_crossing_midnight sessionize tzdb now profiles T g l w) = Inl y \<longrightarrow>
        (\<exists>u' d'. (u', d', True) \<in> set (claim_log (run_sessionize_for_users_crossing_midnight sessionize tzdb now profiles T g l w))
            \<and> sessionize u' g l = Inl y)
        \<or> (\<exists>p\<in>set profiles. \<exists>tz. timezone p = Some tz \<and> tzdb tz = None
              \<and> y = Time_Zone_Not_Recognized tz))"
proof -
  let ?R = "run_sessionize_for_users_crossing_midnight sessionize tzdb now profiles T g l w"
  let ?prev = "now - make_interval_mins w"
  let ?s0 = "\<lparr>user_midnight_runs = T, runs = 0, performed = [], claimed = []\<rparr>"
  note cw = tick_calls_are_won_claims [of sessionize tzdb now profiles T g l w]
  have abort: "returned ?R = Inl x \<and> last (claim_log ?R) = (u, d, True)
      \<and> last (calls ?R) = (u, g, l)
      \<and> (\<exists>post. map fst (rows_passing_where tzdb now ?prev profiles)
            = map fst (claim_log ?R) @ post)"
    if m: "(u, d, True) \<in> set (claim_log ?R)" and x: "sessionize u g l = Inl x"
  proof -
    have core: ?thesis
      if ps: "profiles = ps1 @ ps2" and sel: "select_candidates tzdb now ?prev ps1 = Inr cs"
        and f: "for_loop sessionize tzdb now g l cs ?s0 = (e, s)"
        and log: "claim_log ?R = claimed s" for ps1 ps2 cs e s
    proof -
      from m log have "(u, d, True) \<in> set (claimed s)" by simp
      from for_loop_failure_last [OF f this _ x] obtain pre tz post C where
        e: "e = Some x" and cs: "cs = pre @ (u, tz) # post"
        and c: "claimed s = C @ [(u, d, True)]" and mp: "map fst C = map fst pre" by auto
      from c log have c': "claim_log ?R = C @ [(u, d, True)]" by simp
      from tick_raises_failure [OF m x]
      have r: "returned ?R = Inl x" .
      from select_prefix_passing [OF sel, of ps2] ps
      have "rows_passing_where tzdb now ?prev profiles = cs @ rows_passing_where tzdb now ?prev ps2"
        by simp
      then have "map fst (rows_passing_where tzdb now ?prev profiles)
          = map fst (claim_log ?R) @ (map fst post @ map fst (rows_passing_where tzdb now ?prev ps2))"
        using cs c' mp by simp
      with r last_won_call [OF c' cw] show ?thesis by blast
    qed
    show ?thesis
    proof (cases rule: tick_cases [of tzdb now w profiles sessionize g l T])
      case (completed cs s)
      then show ?thesis using core [of profiles "[]" cs None s] by simp
    next
      case (raised ps1 ps2 cs y s)
      then show ?thesis using core [OF raised(1,2,3)] by simp
    next
      case (query_failed ps1 ps2 cs y s)
      then show ?thesis using core [OF query_failed(1,2,3)] by simp
    qed
  qed
  have finished: "map fst (claim_log ?R) = map fst (rows_passing_where tzdb now ?prev profiles)
      \<and> calls ?R = map (\<lambda>a. (fst a, g, l)) (filter attempt_won (claim_log ?R))
      \<and> (\<forall>c\<in>set (calls ?R). \<exists>m. sessionize (fst c) g l = Inr m)"
    if r: "returned ?R = Inr n"
  proof -
    from r obtain cs where
      sel: "select_candidates tzdb now ?prev profiles = Inr cs"
      and mf: "map fst (claim_log ?R) = map fst cs"
      by (rule tick_completed_facts)
    from select_is_passing [OF sel] mf
    have a: "map fst (claim_log ?R) = map fst (rows_passing_where tzdb now ?prev profiles)"
      by simp
    have b: "\<exists>m. sessionize (fst c) g l = Inr m" if c: "c \<in> set (calls ?R)" for c
    proof (cases "sessionize (fst c) g l")
      case (Inl z)
      from tick_call_needs_new_pair [OF c] obtain d' where
        "(fst c, d', True) \<in> set (claim_log ?R)" by blast
      from tick_raises_failure [OF this Inl] r show ?thesis by simp
    next
      case (Inr m)
      then show ?thesis by blast
    qed
    from a b cw show ?thesis by blast
  qed
  have why: "(\<exists>u' d'. (u', d', True) \<in> set (claim_log ?R) \<and> sessionize u' g l = Inl y)
        \<or> (\<exists>p\<in>set profiles. \<exists>tz. timezone p = Some tz \<and> tzdb tz = None
              \<and> y = Time_Zone_Not_Recognized tz)"
    if r: "returned ?R = Inl y"
  proof (cases rule: tick_cases [of tzdb now w profiles sessionize g l T])
    case (completed cs s)
    with r show ?thesis by simp
  next
    case (raised ps1 ps2 cs z s)
    with r have z: "z = y" by simp
    from candidates_have_zone [OF raised(2)] have "\<forall>c\<in>set cs. tzdb (snd c) \<noteq> None" by auto
    from for_loop_raised [OF raised(3) this] z raised(4) show ?thesis by auto
  next
    case (query_failed ps1 ps2 cs z s)
    with r have z: "z = y" by simp
    from select_Inl_source [OF query_failed(4)] z show ?thesis by blast
  qed
  from abort finished why show ?thesis by blast
qed

theorem downstream_failure_aborts_tick_witness:
  "(1, 0, True) \<in> set (claim_log (run_sessionize_for_users_crossing_midnight sessionize_fails_for_1 zones (utc_instant 0 5 5)
        ten_then_unknown
        [] 10 24 30))
   \<and> sessionize_fails_for_1 1 10 24 = Inl (Raised ''sessionize failed'')
   \<and> returned (run_sessionize_for_users_crossing_midnight sessionize_fails_for_1 zones (utc_instant 0 5 5)
        ten_then_unknown
        [] 10 24 30) = Inl (Raised ''sessionize failed'')
   \<and> last (claim_log (run_sessionize_for_users_crossing_midnight sessionize_fails_for_1 zones (utc_instant 0 5 5)
        ten_then_unknown
        [] 10 24 30)) = (1, 0, True)
   \<and> last (calls (run_sessionize_for_users_crossing_midnight sessionize_fails_for_1 zones (utc_instant 0 5 5)
        ten_then_unknown
        [] 10 24 30)) = (1, 10, 24)
   \<and> returned (run_sessionize_for_users_crossing_midnight sessionize_ok zones (utc_instant 0 5 5)
        [\<lparr>profile_id = 1, timezone = Some ''America/Bogota''\<rparr>,
         \<lparr>profile_id = 2, timezone = Some ''America/Bogota''\<rparr>]
        [] 10 24 30) = Inr 2
   \<and> map fst (claim_log (run_sessionize_for_users_crossing_midnight sessionize_ok zones (utc_instant 0 5 5)
        [\<lparr>profile_id = 1, timezone = Some ''America/Bogota''\<rparr>,
         \<lparr>profile_id = 2, timezone = Some ''America/Bogota''\<rparr>]
        [] 10 24 30)) = map fst (rows_passing_where zones (utc_instant 0 5 5) (utc_instant 0 5 5 - make_interval_mins 30)
        [\<lparr>profile_id = 1, timezone = Some ''America/Bogota''\<rparr>,
         \<lparr>profile_id = 2, timezone = Some ''America/Bogota''\<rparr>])
   \<and> calls (run_sessionize_for_users_crossing_midnight sessionize_ok zones (utc_instant 0 5 5)
        [\<lparr>profile_id = 1, timezone = Some ''America/Bogota''\<rparr>,
         \<lparr>profile_id = 2, timezone = Some ''America/Bogota''\<rparr>]
        [] 10 24 30) = [(1, 10, 24), (2, 10, 24)]
   \<and> returned (run_sessionize_for_users_crossing_midnight sessionize_ok zones (utc_instant 0 5 5)
        ten_then_unknown
        [] 10 24 30) = Inl (Time_Zone_Not_Recognized ''Nowhere'')
   \<and> \<lparr>profile_id = 11, timezone = Some ''Nowhere''\<rparr> \<in> set ten_then_unknown
   \<and> zones ''Nowhere'' = None"
proof -
  have h1: "(1, 0, True) \<in> set (claim_log (run_sessionize_for_users_crossing_midnight sessionize_fails_for_1 zones (utc_instant 0 5 5)
        ten_then_unknown
        [] 10 24 30))"
    by (simp add: tick_ten_then_unknown_failing)
  have h2: "sessionize_fails_for_1 1 10 24 = Inl (Raised ''sessionize failed'')"
    by (simp add: sessionize_fails_for_1_def)
  have h3: "returned (run_sessionize_for_users_crossing_midnight sessionize_ok zones (utc_instant 0 5 5)
        [\<lparr>profile_id = 1, timezone = Some ''America/Bogota''\<rparr>,
         \<lparr>profile_id = 2, timezone = Some ''America/Bogota''\<rparr>]
        [] 10 24 30) = Inr 2"
    by (simp add: tick_two_ok)
  have h4: "returned (run_sessionize_for_users_crossing_midnight sessionize_ok zones (utc_instant 0 5 5)
        ten_then_unknown
        [] 10 24 30) = Inl (Time_Zone_Not_Recognized ''Nowhere'')"
    by (simp add: tick_ten_then_unknown_ok)
  from h1 h2
    downstream_failure_aborts_tick [where u = 1 and d = 0
      and sessionize = sessionize_fails_for_1 and tzdb = zones and now = "utc_instant 0 5 5"
      and profiles = ten_then_unknown and T = "[]" and g = 10 and l = 24 and w = 30
      and x = "Raised ''sessionize failed''"]
  have a: "returned (run_sessionize_for_users_crossing_midnight sessionize_fails_for_1 zones (utc_instant 0 5 5)
        ten_then_unknown
        [] 10 24 30) = Inl (Raised ''sessionize failed'')
      \<and> last (claim_log (run_sessionize_for_users_crossing_midnight sessionize_fails_for_1 zones (utc_instant 0 5 5)
        ten_then_unknown
        [] 10 24 30)) = (1, 0, True)
      \<and> last (calls (run_sessionize_for_users_crossing_midnight sessionize_fails_for_1 zones (utc_instant 0 5 5)
        ten_then_unknown
        [] 10 24 30)) = (1, 10, 24)" by blast
  from h3
    downstream_failure_aborts_tick [where sessionize = sessionize_ok and tzdb = zones
      and now = "utc_instant 0 5 5"
      and profiles = "[\<lparr>profile_id = 1, timezone = Some ''America/Bogota''\<rparr>,
         \<lparr>profile_id = 2, timezone = Some ''America/Bogota''\<rparr>]" and T = "[]" and g = 10 and l = 24 and w = 30 and n = 2]
  have b: "map fst (claim_log (run_sessionize_for_users_crossing_midnight sessionize_ok zones (utc_instant 0 5 5)
        [\<lparr>profile_id = 1, timezone = Some ''America/Bogota''\<rparr>,
         \<lparr>profile_id = 2, timezone = Some ''America/Bogota''\<rparr>]
        [] 10 24 30)) = map fst (rows_passing_where zones (utc_instant 0 5 5) (utc_instant 0 5 5 - make_interval_mins 30)
        [\<lparr>profile_id = 1, timezone = Some ''America/Bogota''\<rparr>,
         \<lparr>profile_id = 2, timezone = Some ''America/Bogota''\<rparr>])" by blast
  from a b h1 h2 h3 h4 show ?thesis
    by (simp add: tick_two_ok ten_then_unknown_def zones_def)
qed

text \<open>
  The claim as first stated fails: entities 1 and 2 are both candidates, the
  downstream call for entity 1 raises and the one for entity 2 would not; the call
  raises the error instead of returning a count, and entity 2 has no claim
  attempted and no downstream call made.
\<close>

theorem failure_isolated_counterexample:
  "rows_passing_where zones (utc_instant 0 5 5) (utc_instant 0 5 5 - make_interval_mins 30)
        [\<lparr>profile_id = 1, timezone = Some ''America/Bogota''\<rparr>,
         \<lparr>profile_id = 2, timezone = Some ''America/Bogota''\<rparr>] = [(1, ''America/Bogota''), (2, ''America/Bogota'')]
   \<and> sessionize_fails_for_1 2 10 24 = Inr 1
   \<and> returned (run_sessionize_for_users_crossing_midnight sessionize_fails_for_1 zones (utc_instant 0 5 5)
        [\<lparr>profile_id = 1, timezone = Some ''America/Bogota''\<rparr>,
         \<lparr>profile_id = 2, timezone = Some ''America/Bogota''\<rparr>]
        [] 10 24 30) = Inl (Raised ''sessionize failed'')
   \<and> claim_log (run_sessionize_for_users_crossing_midnight sessionize_fails_for_1 zones (utc_instant 0 5 5)
        [\<lparr>profile_id = 1, timezone = Some ''America/Bogota''\<rparr>,
         \<lparr>profile_id = 2, timezone = Some ''America/Bogota''\<rparr>]
        [] 10 24 30) = [(1, 0, True)]
   \<and> calls (run_sessionize_for_users_crossing_midnight sessionize_fails_for_1 zones (utc_instant 0 5 5)
        [\<lparr>profile_id = 1, timezone = Some ''America/Bogota''\<rparr>,
         \<lparr>profile_id = 2, timezone = Some ''America/Bogota''\<rparr>]
        [] 10 24 30) = [(1, 10, 24)]"
  by (simp add: passing_two tick_two_first_failing sessionize_fails_for_1_def
      del: rows_passing_where.simps)

section \<open>Counting and replay\<close>

text \<open>
  C7. The integer a call returns is the number of downstream calls made during it,
  which is the number of claims that inserted a row, which is the number of rows
  the table gained.
\<close>

theorem returned_count_is_calls_and_claims:
  assumes "returned (run_sessionize_for_users_crossing_midnight sessionize tzdb now profiles T g l w) = Inr n"
  shows "n = int (length (calls (run_sessionize_for_users_crossing_midnight sessionize tzdb now profiles T g l w)))
    \<and> n = int (length (filter attempt_won (claim_log (run_sessionize_for_users_crossing_midnight sessionize tzdb now profiles T g l w))))
    \<and> int (length (table_after (run_sessionize_for_users_crossing_midnight sessionize tzdb now profiles T g l w))) = int (length T) + n"
proof -
  from assms obtain cs N where
    t: "table_after (run_sessionize_for_users_crossing_midnight sessionize tzdb now profiles T g l w) = T @ N"
    and c: "calls (run_sessionize_for_users_crossing_midnight sessionize tzdb now profiles T g l w) = map (\<lambda>r. (user_id r, g, l)) N"
    and n: "n = int (length N)"
    and w: "map attempt_key (filter attempt_won (claim_log (run_sessionize_for_users_crossing_midnight sessionize tzdb now profiles T g l w)))
       = map pk N"
    by (rule tick_completed_facts)
  from w have "length (filter attempt_won (claim_log (run_sessionize_for_users_crossing_midnight sessionize tzdb now profiles T g l w))) = length N"
    by (metis length_map)
  with t c n show ?thesis by simp
qed

theorem returned_count_is_calls_and_claims_witness:
  "returned (run_sessionize_for_users_crossing_midnight sessionize_ok zones (utc_instant 0 5 5)
        [\<lparr>profile_id = 1, timezone = Some ''America/Bogota''\<rparr>,
         \<lparr>profile_id = 2, timezone = Some ''America/Bogota''\<rparr>] [] 10 24 30) = Inr 2
   \<and> 2 = int (length (calls (run_sessionize_for_users_crossing_midnight sessionize_ok zones (utc_instant 0 5 5)
        [\<lparr>profile_id = 1, timezone = Some ''America/Bogota''\<rparr>,
         \<lparr>profile_id = 2, timezone = Some ''America/Bogota''\<rparr>] [] 10 24 30)))
   \<and> 2 = int (length (filter attempt_won (claim_log (run_sessionize_for_users_crossing_midnight sessionize_ok zones (utc_instant 0 5 5)
        [\<lparr>profile_id = 1, timezone = Some ''America/Bogota''\<rparr>,
         \<lparr>profile_id = 2, timezone = Some ''America/Bogota''\<rparr>] [] 10 24 30))))
   \<and> int (length (table_after (run_sessionize_for_users_crossing_midnight sessionize_ok zones (utc_instant 0 5 5)
        [\<lparr>profile_id = 1, timezone = Some ''America/Bogota''\<rparr>,
         \<lparr>profile_id = 2, timezone = Some ''America/Bogota''\<rparr>] [] 10 24 30))) = int (length ([] :: run_row list)) + 2"
proof -
  have h: "returned (run_sessionize_for_users_crossing_midnight sessionize_ok zones (utc_instant 0 5 5)
        [\<lparr>profile_id = 1, timezone = Some ''America/Bogota''\<rparr>,
         \<lparr>profile_id = 2, timezone = Some ''America/Bogota''\<rparr>] [] 10 24 30) = Inr 2"
    by (simp add: tick_two_ok)
  from returned_count_is_calls_and_claims [OF h] h show ?thesis by simp
qed

text \<open>
  C6, as amended. A call makes a downstream call only for an entity whose pair it
  inserted, that pair being absent from the table before the call. When a first
  call has returned its count, calling again with the same \<open>now\<close>, the same
  profiles and the table the first call left (whatever the downstream processor
  would do this time) makes no downstream call, returns 0, wins no claim and leaves
  the table as it is, while attempting the same entities. The count a call returns
  is the number of distinct pairs \<open>(user_id, local date at now)\<close> of the candidates
  whose date changed that were not in the table before it.
\<close>

theorem replayed_tick_invokes_nothing:
  "(c \<in> set (calls (run_sessionize_for_users_crossing_midnight sessionize tzdb now profiles T g l w)) \<longrightarrow>
      (\<exists>d. (fst c, d, True) \<in> set (claim_log (run_sessionize_for_users_crossing_midnight sessionize tzdb now profiles T g l w))
         \<and> (fst c, d) \<notin> set (map pk T)))
   \<and> (returned (run_sessionize_for_users_crossing_midnight sessionize tzdb now profiles T g l w) = Inr n \<longrightarrow>
      returned (run_sessionize_for_users_crossing_midnight sessionize' tzdb now profiles
            (table_after (run_sessionize_for_users_crossing_midnight sessionize tzdb now profiles T g l w)) g l w) = Inr 0
    \<and> calls (run_sessionize_for_users_crossing_midnight sessionize' tzdb now profiles
            (table_after (run_sessionize_for_users_crossing_midnight sessionize tzdb now profiles T g l w)) g l w) = []
    \<and> table_after (run_sessionize_for_users_crossing_midnight sessionize' tzdb now profiles
            (table_after (run_sessionize_for_users_crossing_midnight sessionize tzdb now profiles T g l w)) g l w)
        = table_after (run_sessionize_for_users_crossing_midnight sessionize tzdb now profiles T g l w)
    \<and> filter attempt_won (claim_log (run_sessionize_for_users_crossing_midnight sessionize' tzdb now profiles
            (table_after (run_sessionize_for_users_crossing_midnight sessionize tzdb now profiles T g l w)) g l w)) = []
    \<and> map fst (claim_log (run_sessionize_for_users_crossing_midnight sessionize' tzdb now profiles
            (table_after (run_sessionize_for_users_crossing_midnight sessionize tzdb now profiles T g l w)) g l w))
        = map fst (claim_log (run_sessionize_for_users_crossing_midnight sessionize tzdb now profiles T g l w))
    \<and> n = int (card (set (candidate_pairs tzdb now
                (rows_passing_where tzdb now (now - make_interval_mins w) profiles))
                      - set (map pk T))))"
proof -
  let ?R = "run_sessionize_for_users_crossing_midnight sessionize tzdb now profiles T g l w"
  let ?R' = "run_sessionize_for_users_crossing_midnight sessionize' tzdb now profiles (table_after ?R) g l w"
  let ?prev = "now - make_interval_mins w"
  have replay: "returned ?R' = Inr 0 \<and> calls ?R' = [] \<and> table_after ?R' = table_after ?R
    \<and> filter attempt_won (claim_log ?R') = []
    \<and> map fst (claim_log ?R') = map fst (claim_log ?R)
    \<and> n = int (card (set (candidate_pairs tzdb now (rows_passing_where tzdb now ?prev profiles))
                      - set (map pk T)))"
    if first: "returned ?R = Inr n"
  proof -
    from first obtain cs N where
      sel: "select_candidates tzdb now ?prev profiles = Inr cs"
      and t: "table_after ?R = T @ N"
      and n: "n = int (length N)"
      and m: "map fst (claim_log ?R) = map fst cs"
      and d: "distinct (map pk N)"
      and k: "set (map pk N) = set (map attempt_key (claim_log ?R)) - set (map pk T)"
      and p: "\<forall>c\<in>set cs. \<exists>z. tzdb (snd c) = Some z \<and>
          (fst c, at_time_zone_date z now) \<in> set (map pk (T @ N))"
      and q: "map attempt_key (claim_log ?R) = candidate_pairs tzdb now cs"
      by (rule tick_completed_facts)
    let ?s0 = "\<lparr>user_midnight_runs = T @ N, runs = 0, performed = [], claimed = []\<rparr>"
    from p have "\<forall>c\<in>set cs. \<exists>z. tzdb (snd c) = Some z \<and>
          (fst c, at_time_zone_date z now) \<in> set (map pk (user_midnight_runs ?s0))" by simp
    from for_loop_replay [OF this, of sessionize' g l] obtain C where
      f: "for_loop sessionize' tzdb now g l cs ?s0 = (None, ?s0\<lparr>claimed := claimed ?s0 @ C\<rparr>)"
      and C: "filter attempt_won C = []" "map fst C = map fst cs" by blast
    let ?R2 = "run_sessionize_for_users_crossing_midnight sessionize' tzdb now profiles (T @ N) g l w"
    have second: "returned ?R2 = Inr 0 \<and> calls ?R2 = [] \<and> table_after ?R2 = T @ N
        \<and> claim_log ?R2 = C"
    proof (cases rule: tick_cases [of tzdb now w profiles sessionize' g l "T @ N"])
      case (completed cs' s)
      from completed(1) sel have "cs' = cs" by simp
      with completed(2) f have "s = ?s0\<lparr>claimed := claimed ?s0 @ C\<rparr>" by simp
      with completed(3) show ?thesis by simp
    next
      case (raised ps1 ps2 cs' y s)
      from raised(1,2) sel have "cs' @ rows_passing_where tzdb now ?prev ps2 = cs"
        using select_prefix_passing [OF raised(2), of ps2] select_is_passing [OF sel] by simp
      then have "for_loop sessionize' tzdb now g l (cs' @ rows_passing_where tzdb now ?prev ps2) ?s0
          = (None, ?s0\<lparr>claimed := claimed ?s0 @ C\<rparr>)" using f by simp
      with raised(3) show ?thesis by (simp add: for_loop_append)
    next
      case (query_failed ps1 ps2 cs' y s)
      with sel show ?thesis by simp
    qed
    have "card (set (map pk N)) = length N" using d by (metis distinct_card length_map)
    with k n q select_is_passing [OF sel]
    have "n = int (card (set (candidate_pairs tzdb now (rows_passing_where tzdb now ?prev profiles))
                      - set (map pk T)))" by simp
    with second C m t show ?thesis by simp
  qed
  from replay tick_call_needs_new_pair [of c sessionize tzdb now profiles T g l w]
  show ?thesis by blast
qed

theorem replayed_tick_invokes_nothing_witness:
  "(1, 10, 24) \<in> set (calls (run_sessionize_for_users_crossing_midnight sessionize_ok zones (utc_instant 0 5 5)
        [\<lparr>profile_id = 1, timezone = Some ''America/Bogota''\<rparr>,
         \<lparr>profile_id = 2, timezone = Some ''America/Bogota''\<rparr>]
        [] 10 24 30))
   \<and> (1, 0, True) \<in> set (claim_log (run_sessionize_for_users_crossing_midnight sessionize_ok zones (utc_instant 0 5 5)
        [\<lparr>profile_id = 1, timezone = Some ''America/Bogota''\<rparr>,
         \<lparr>profile_id = 2, timezone = Some ''America/Bogota''\<rparr>]
        [] 10 24 30))
   \<and> (1, 0) \<notin> set (map pk ([] :: run_row list))
   \<and> returned (run_sessionize_for_users_crossing_midnight sessionize_ok zones (utc_instant 0 5 5)
        [\<lparr>profile_id = 1, timezone = Some ''America/Bogota''\<rparr>,
         \<lparr>profile_id = 2, timezone = Some ''America/Bogota''\<rparr>]
        [] 10 24 30) = Inr 2
   \<and> returned (run_sessionize_for_users_crossing_midnight sessionize_fails_for_1 zones (utc_instant 0 5 5)
        [\<lparr>profile_id = 1, timezone = Some ''America/Bogota''\<rparr>,
         \<lparr>profile_id = 2, timezone = Some ''America/Bogota''\<rparr>]
        (table_after (run_sessionize_for_users_crossing_midnight sessionize_ok zones (utc_instant 0 5 5)
        [\<lparr>profile_id = 1, timezone = Some ''America/Bogota''\<rparr>,
         \<lparr>profile_id = 2, timezone = Some ''America/Bogota''\<rparr>]
        [] 10 24 30)) 10 24 30) = Inr 0
   \<and> calls (run_sessionize_for_users_crossing_midnight sessionize_fails_for_1 zones (utc_instant 0 5 5)
        [\<lparr>profile_id = 1, timezone = Some ''America/Bogota''\<rparr>,
         \<lparr>profile_id = 2, timezone = Some ''America/Bogota''\<rparr>]
        (table_after (run_sessionize_for_users_crossing_midnight sessionize_ok zones (utc_instant 0 5 5)
        [\<lparr>profile_id = 1, timezone = Some ''America/Bogota''\<rparr>,
         \<lparr>profile_id = 2, timezone = Some ''America/Bogota''\<rparr>]
        [] 10 24 30)) 10 24 30) = []
   \<and> table_after (run_sessionize_for_users_crossing_midnight sessionize_fails_for_1 zones (utc_instant 0 5 5)
        [\<lparr>profile_id = 1, timezone = Some ''America/Bogota''\<rparr>,
         \<lparr>profile_id = 2, timezone = Some ''America/Bogota''\<rparr>]
        (table_after (run_sessionize_for_users_crossing_midnight sessionize_ok zones (utc_instant 0 5 5)
        [\<lparr>profile_id = 1, timezone = Some ''America/Bogota''\<rparr>,
         \<lparr>profile_id = 2, timezone = Some ''America/Bogota''\<rparr>]
        [] 10 24 30)) 10 24 30) = table_after (run_sessionize_for_users_crossing_midnight sessionize_ok zones (utc_instant 0 5 5)
        [\<lparr>profile_id = 1, timezone = Some ''America/Bogota''\<rparr>,
         \<lparr>profile_id = 2, timezone = Some ''America/Bogota''\<rparr>]
        [] 10 24 30)
   \<and> map fst (claim_log (run_sessionize_for_users_crossing_midnight sessionize_fails_for_1 zones (utc_instant 0 5 5)
        [\<lparr>profile_id = 1, timezone = Some ''America/Bogota''\<rparr>,
         \<lparr>profile_id = 2, timezone = Some ''America/Bogota''\<rparr>]
        (table_after (run_sessionize_for_users_crossing_midnight sessionize_ok zones (utc_instant 0 5 5)
        [\<lparr>profile_id = 1, timezone = Some ''America/Bogota''\<rparr>,
         \<lparr>profile_id = 2, timezone = Some ''America/Bogota''\<rparr>]
        [] 10 24 30)) 10 24 30)) = [1, 2]
   \<and> (2 :: int) = int (card (set (candidate_pairs zones (utc_instant 0 5 5)
        (rows_passing_where zones (utc_instant 0 5 5) (utc_instant 0 5 5 - make_interval_mins 30)
           [\<lparr>profile_id = 1, timezone = Some ''America/Bogota''\<rparr>,
         \<lparr>profile_id = 2, timezone = Some ''America/Bogota''\<rparr>])) - set (map pk [])))"
proof -
  have h: "returned (run_sessionize_for_users_crossing_midnight sessionize_ok zones (utc_instant 0 5 5)
        [\<lparr>profile_id = 1, timezone = Some ''America/Bogota''\<rparr>,
         \<lparr>profile_id = 2, timezone = Some ''America/Bogota''\<rparr>]
        [] 10 24 30) = Inr 2"
    by (simp add: tick_two_ok)
  have c: "(1, 10, 24) \<in> set (calls (run_sessionize_for_users_crossing_midnight sessionize_ok zones (utc_instant 0 5 5)
        [\<lparr>profile_id = 1, timezone = Some ''America/Bogota''\<rparr>,
         \<lparr>profile_id = 2, timezone = Some ''America/Bogota''\<rparr>]
        [] 10 24 30))"
    by (simp add: tick_two_ok)
  from h c replayed_tick_invokes_nothing [of "(1, 10, 24)" sessionize_ok zones "utc_instant 0 5 5"
      "[\<lparr>profile_id = 1, timezone = Some ''America/Bogota''\<rparr>,
         \<lparr>profile_id = 2, timezone = Some ''America/Bogota''\<rparr>]" "[]" 10 24 30 2 sessionize_fails_for_1]
  show ?thesis
    by (simp add: tick_two_ok del: rows_passing_where.simps candidate_pairs.simps)
qed

text \<open>
  The claim as first stated fails when the first call raised: entity 2 wins its
  claim and its downstream call returns, the call for entity 1 raises, the whole
  call is undone, and the replay on the table it left calls the downstream
  processor for entity 2 again.
\<close>

theorem replay_after_abort_counterexample:
  "(2, 0, True) \<in> set (claim_log (run_sessionize_for_users_crossing_midnight sessionize_fails_for_1 zones (utc_instant 0 5 5)
        [\<lparr>profile_id = 2, timezone = Some ''America/Bogota''\<rparr>,
         \<lparr>profile_id = 1, timezone = Some ''America/Bogota''\<rparr>]
        [] 10 24 30))
   \<and> returned (run_sessionize_for_users_crossing_midnight sessionize_fails_for_1 zones (utc_instant 0 5 5)
        [\<lparr>profile_id = 2, timezone = Some ''America/Bogota''\<rparr>,
         \<lparr>profile_id = 1, timezone = Some ''America/Bogota''\<rparr>]
        [] 10 24 30) = Inl (Raised ''sessionize failed'')
   \<and> (2, 10, 24) \<in> set (calls (run_sessionize_for_users_crossing_midnight sessionize_fails_for_1 zones (utc_instant 0 5 5)
        [\<lparr>profile_id = 2, timezone = Some ''America/Bogota''\<rparr>,
         \<lparr>profile_id = 1, timezone = Some ''America/Bogota''\<rparr>]
        (table_after (run_sessionize_for_users_crossing_midnight sessionize_fails_for_1 zones (utc_instant 0 5 5)
        [\<lparr>profile_id = 2, timezone = Some ''America/Bogota''\<rparr>,
         \<lparr>profile_id = 1, timezone = Some ''America/Bogota''\<rparr>]
        [] 10 24 30)) 10 24 30))"
  by (simp add: tick_second_failing)

section \<open>The date that is claimed\<close>




text \<open>
  C10. Every claim a call attempts is for a profile with a time zone whose local
  date changed, and the date claimed is the local date at \<open>now\<close>, which differs
  from the local date at \<open>now\<close> minus the window; every row the call adds to the
  table is the row of such a claim. This holds for any zone rule, including one
  that puts the date at \<open>now\<close> before the date at \<open>now\<close> minus the window.
\<close>

theorem claimed_date_is_date_at_now:
  "(a \<in> set (claim_log (run_sessionize_for_users_crossing_midnight sessionize tzdb now profiles T g l w)) \<longrightarrow>
      (\<exists>x\<in>set profiles. \<exists>tz z. profile_id x = fst a \<and> timezone x = Some tz \<and> tzdb tz = Some z
         \<and> fst (snd a) = at_time_zone_date z now
         \<and> fst (snd a) \<noteq> at_time_zone_date z (now - make_interval_mins w)))
   \<and> (row \<in> set (table_after (run_sessionize_for_users_crossing_midnight sessionize tzdb now profiles T g l w)) \<and> row \<notin> set T \<longrightarrow>
        (user_id row, local_date row, True)
          \<in> set (claim_log (run_sessionize_for_users_crossing_midnight sessionize tzdb now profiles T g l w)))"
  using tick_claim_dates [of a sessionize tzdb now profiles T g l w]
    tick_new_rows [of row sessionize tzdb now profiles T g l w]
  by blast

theorem claimed_date_is_date_at_now_witness:
  "(3, 0, True) \<in> set (claim_log (run_sessionize_for_users_crossing_midnight sessionize_ok zones (utc_instant 0 12 10)
        [\<lparr>profile_id = 3, timezone = Some ''Date/Line''\<rparr>]
        [] 10 24 30))
   \<and> at_time_zone_date date_line_zone (utc_instant 0 12 10) = 0
   \<and> at_time_zone_date date_line_zone (utc_instant 0 12 10 - make_interval_mins 30) = 1
   \<and> (\<exists>x\<in>set [\<lparr>profile_id = 3, timezone = Some ''Date/Line''\<rparr>]. \<exists>tz z. profile_id x = 3 \<and> timezone x = Some tz \<and> zones tz = Some z
         \<and> (0 :: int) = at_time_zone_date z (utc_instant 0 12 10)
         \<and> (0 :: int) \<noteq> at_time_zone_date z (utc_instant 0 12 10 - make_interval_mins 30))
   \<and> \<lparr>user_id = 3, local_date = 0, ran_at = utc_instant 0 12 10\<rparr> \<in> set (table_after (run_sessionize_for_users_crossing_midnight sessionize_ok zones (utc_instant 0 12 10)
        [\<lparr>profile_id = 3, timezone = Some ''Date/Line''\<rparr>]
        [] 10 24 30))
   \<and> (10, 0, True) \<in> set (claim_log (run_sessionize_for_users_crossing_midnight sessionize_ok zones (utc_instant 0 5 5)
        ten_then_unknown
        [] 10 24 30))
   \<and> (\<exists>x\<in>set ten_then_unknown. \<exists>tz z. profile_id x = 10 \<and> timezone x = Some tz
         \<and> zones tz = Some z
         \<and> (0 :: int) = at_time_zone_date z (utc_instant 0 5 5)
         \<and> (0 :: int) \<noteq> at_time_zone_date z (utc_instant 0 5 5 - make_interval_mins 30))"
proof -
  have h: "(3, 0, True) \<in> set (claim_log (run_sessionize_for_users_crossing_midnight sessionize_ok zones (utc_instant 0 12 10)
        [\<lparr>profile_id = 3, timezone = Some ''Date/Line''\<rparr>]
        [] 10 24 30))"
    by (simp add: tick_date_line)
  from h claimed_date_is_date_at_now [of "(3, 0, True)" sessionize_ok zones "utc_instant 0 12 10"
      "[\<lparr>profile_id = 3, timezone = Some ''Date/Line''\<rparr>]" "[]" 10 24 30]
  have a: "\<exists>x\<in>set [\<lparr>profile_id = 3, timezone = Some ''Date/Line''\<rparr>]. \<exists>tz z. profile_id x = 3 \<and> timezone x = Some tz \<and> zones tz = Some z
         \<and> (0 :: int) = at_time_zone_date z (utc_instant 0 12 10)
         \<and> (0 :: int) \<noteq> at_time_zone_date z (utc_instant 0 12 10 - make_interval_mins 30)"
    by simp
  have k: "(10, 0, True) \<in> set (claim_log (run_sessionize_for_users_crossing_midnight sessionize_ok zones (utc_instant 0 5 5)
        ten_then_unknown
        [] 10 24 30))"
    by (simp add: tick_ten_then_unknown_ok)
  from k claimed_date_is_date_at_now [of "(10, 0, True)" sessionize_ok zones "utc_instant 0 5 5"
      ten_then_unknown "[]" 10 24 30]
  have b: "\<exists>x\<in>set ten_then_unknown. \<exists>tz z. profile_id x = 10 \<and> timezone x = Some tz
         \<and> zones tz = Some z
         \<and> (0 :: int) = at_time_zone_date z (utc_instant 0 5 5)
         \<and> (0 :: int) \<noteq> at_time_zone_date z (utc_instant 0 5 5 - make_interval_mins 30)"
    by simp
  have c: "at_time_zone_date date_line_zone (utc_instant 0 12 10) = 0
      \<and> at_time_zone_date date_line_zone (utc_instant 0 12 10 - make_interval_mins 30) = 1
      \<and> \<lparr>user_id = 3, local_date = 0, ran_at = utc_instant 0 12 10\<rparr>
          \<in> set (table_after (run_sessionize_for_users_crossing_midnight sessionize_ok zones (utc_instant 0 12 10)
        [\<lparr>profile_id = 3, timezone = Some ''Date/Line''\<rparr>]
        [] 10 24 30))"
    by (simp add: date_line_dates tick_date_line)
  from h a k b c show ?thesis by blast
qed

end
